theory Spec2Isabelle
  imports Main "HOL-Library.Sublist"
begin

section \<open>Values, dictionaries and errors\<close>

text \<open>
  The settings handled by \<^verbatim>\<open>lsp_server.py\<close> are JSON objects whose values are strings
  (\<^verbatim>\<open>workspace\<close>, \<^verbatim>\<open>importStrategy\<close>, \<^verbatim>\<open>showNotifications\<close>, \<^verbatim>\<open>cwd\<close>,
  \<^verbatim>\<open>workspaceFS\<close>) or lists of strings (\<^verbatim>\<open>path\<close>, \<^verbatim>\<open>interpreter\<close>, \<^verbatim>\<open>args\<close>).
\<close>

datatype jv = Str string | Lst "string list"

text \<open>
  A Python \<^verbatim>\<open>dict\<close> keeps insertion order (\<^verbatim>\<open>list(d.values())[0]\<close> is the value stored
  first), so it is an association list with one entry per key. \<open>dict_set\<close> is
  \<^verbatim>\<open>d[k] = v\<close>: an existing key keeps its place, a new key goes last. \<open>dict_merge\<close> is the
  unpacking \<^verbatim>\<open>{**d, **e}\<close>. Reading a key is \<open>map_of\<close>.
\<close>

type_synonym 'v dict = "(string \<times> 'v) list"

fun dict_set :: "string \<Rightarrow> 'v \<Rightarrow> 'v dict \<Rightarrow> 'v dict" where
  "dict_set k v [] = [(k, v)]"
| "dict_set k v ((k', v') # d) =
     (if k = k' then (k', v) # d else (k', v') # dict_set k v d)"

definition dict_merge :: "'v dict \<Rightarrow> 'v dict \<Rightarrow> 'v dict" where
  "dict_merge d e = fold (\<lambda>(k, v). dict_set k v) e d"

definition dict_values :: "'v dict \<Rightarrow> 'v list" where
  "dict_values d = map snd d"

text \<open>The exceptions the modelled code can raise; all are subclasses of \<^verbatim>\<open>Exception\<close>.\<close>

datatype error =
    KeyError string
  | IndexError
  | TypeError
  | AttributeError
  | SyntaxError string
  | OtherException string

text \<open>\<^verbatim>\<open>d[k]\<close> raises \<^verbatim>\<open>KeyError\<close> for a missing key.\<close>

definition getitem :: "'v dict \<Rightarrow> string \<Rightarrow> error + 'v" where
  "getitem d k = (case map_of d k of None \<Rightarrow> Inl (KeyError k) | Some v \<Rightarrow> Inr v)"

text \<open>Truthiness (\<^verbatim>\<open>if v:\<close>) and \<^verbatim>\<open>len(v)\<close> of a string or a list.\<close>

fun truthy :: "jv \<Rightarrow> bool" where
  "truthy (Str s) = (s \<noteq> [])"
| "truthy (Lst l) = (l \<noteq> [])"

fun py_len :: "jv \<Rightarrow> nat" where
  "py_len (Str s) = length s"
| "py_len (Lst l) = length l"

text \<open>\<^verbatim>\<open>v[0]\<close>: the first element of a list, the first character of a string.\<close>

fun first_item :: "jv \<Rightarrow> error + string" where
  "first_item (Str []) = Inl IndexError"
| "first_item (Str (c # s)) = Inr [c]"
| "first_item (Lst []) = Inl IndexError"
| "first_item (Lst (x # l)) = Inr x"

text \<open>\<^verbatim>\<open>sep.join(xs)\<close>, \<^verbatim>\<open>s.startswith(p)\<close> and \<^verbatim>\<open>s.replace("\r\n", "\n")\<close>.\<close>

fun join :: "string \<Rightarrow> string list \<Rightarrow> string" where
  "join sep [] = []"
| "join sep [x] = x"
| "join sep (x # y # xs) = x @ sep @ join sep (y # xs)"

definition startswith :: "string \<Rightarrow> string \<Rightarrow> bool" where
  "startswith s p = (take (length p) s = p)"

definition CR :: char where "CR = CHR 0x0D"
definition LF :: char where "LF = CHR 0x0A"

fun replace_crlf :: "string \<Rightarrow> string" where
  "replace_crlf (c # d # s) =
     (if c = CR \<and> d = LF then LF # replace_crlf s else c # replace_crlf (d # s))"
| "replace_crlf s = s"

section \<open>Paths\<close>

text \<open>
  \<^verbatim>\<open>pathlib.Path\<close> on a POSIX system, as far as the resolver uses it: a path is its root
  (empty, one slash, or two slashes) and its components; \<^verbatim>\<open>.parent\<close> drops the last
  component and leaves a path without components as it is; \<^verbatim>\<open>str\<close> joins them again.
\<close>

record pure_path =
  root :: string
  parts :: "string list"

fun split_sep :: "string \<Rightarrow> string \<Rightarrow> string list" where
  "split_sep acc [] = [rev acc]"
| "split_sep acc (c # s) =
     (if c = CHR ''/'' then rev acc # split_sep [] s else split_sep (c # acc) s)"

definition splitroot :: "string \<Rightarrow> string \<times> string" where
  "splitroot p =
     (if take 1 p \<noteq> ''/'' then ('''', p)
      else if take 1 (drop 1 p) \<noteq> ''/'' \<or> take 1 (drop 2 p) = ''/'' then (''/'', drop 1 p)
      else (''//'', drop 2 p))"

definition Path :: "string \<Rightarrow> pure_path" where
  "Path p = (let (r, rel) = splitroot p in
     \<lparr>root = r, parts = filter (\<lambda>x. x \<noteq> [] \<and> x \<noteq> ''.'') (split_sep [] rel)\<rparr>)"

definition parent :: "pure_path \<Rightarrow> pure_path" where
  "parent p = (if parts p = [] then p else p\<lparr>parts := butlast (parts p)\<rparr>)"

definition str :: "pure_path \<Rightarrow> string" where
  "str p = (if root p = [] \<and> parts p = [] then ''.'' else root p @ join ''/'' (parts p))"

section \<open>External collaborators and process state\<close>

text \<open>
  \<^verbatim>\<open>utils.RunResult\<close> and the result class of \<^verbatim>\<open>lsp_jsonrpc\<close>.

  Modelled from the spec: the two result classes are declared in \<^verbatim>\<open>lsp_utils\<close> and
  \<^verbatim>\<open>lsp_jsonrpc\<close>, which are not among the sources. The server builds
  \<^verbatim>\<open>utils.RunResult(stdout, stderr)\<close> and reads \<^verbatim>\<open>.stdout\<close>, \<^verbatim>\<open>.stderr\<close> and (of an RPC
  result only) \<^verbatim>\<open>.exception\<close>; the spec's InvocationResult has the fields stdout, stderr
  and an optional failure. A plain \<open>RunResult\<close> has no failure slot.
\<close>

datatype run_result =
    RunResult string string
  | RpcRunResult string string "string option"

fun stdout :: "run_result \<Rightarrow> string" where
  "stdout (RunResult out err) = out"
| "stdout (RpcRunResult out err exc) = out"

fun stderr :: "run_result \<Rightarrow> string" where
  "stderr (RunResult out err) = err"
| "stderr (RpcRunResult out err exc) = err"

fun exception :: "run_result \<Rightarrow> error + string option" where
  "exception (RunResult out err) = Inl AttributeError"
| "exception (RpcRunResult out err exc) = Inr exc"

text \<open>
  Everything the server calls outside this file is a parameter: the process's working
  directory and interpreter, \<^verbatim>\<open>pygls.uris\<close>, the helpers of \<^verbatim>\<open>lsp_utils\<close>, the parser,
  \<^verbatim>\<open>traceback.format_exc\<close>, the notification setting of the environment, and the three
  backends. A backend may raise. \<open>run_module\<close> runs the tool inside this process: it is
  given \<^verbatim>\<open>sys.path\<close> as it stands and returns it as the tool leaves it. \<open>repr_list\<close> is
  Python's \<^verbatim>\<open>str\<close> of a list of strings.
\<close>

record env =
  getcwd :: string
  sys_executable :: string
  to_fs_path :: "jv \<Rightarrow> string"
  from_fs_path :: "string \<Rightarrow> jv"
  is_current_interpreter :: "string \<Rightarrow> bool"
  is_stdlib_file :: "string option \<Rightarrow> bool"
  ast_parse :: "string \<Rightarrow> error option"
  format_exc :: "error \<Rightarrow> string"
  repr_list :: "string list \<Rightarrow> string"
  LS_SHOW_NOTIFICATION :: "string option"
  run_path :: "string list \<Rightarrow> bool \<Rightarrow> jv \<Rightarrow> string option \<Rightarrow> error + run_result"
  run_over_json_rpc ::
    "jv \<Rightarrow> jv \<Rightarrow> string \<Rightarrow> string list \<Rightarrow> bool \<Rightarrow> jv \<Rightarrow> string option \<Rightarrow> error + run_result"
  run_module ::
    "string \<Rightarrow> string list \<Rightarrow> bool \<Rightarrow> jv \<Rightarrow> string option \<Rightarrow> string list
       \<Rightarrow> (error + run_result) \<times> string list"

text \<open>
  The effects of the server, in the order they happen: the two calls on
  \<^verbatim>\<open>LSP_SERVER\<close> that deliver a message, and the calls of the three backends with
  their arguments.
\<close>

datatype msg_type = Error | Warning | Info | Log

datatype event =
    ShowMessageLog string msg_type
  | ShowMessage string msg_type
  | RunPath "string list" bool jv "string option"
  | RunOverJsonRpc jv jv string "string list" bool jv "string option"
  | RunModule string "string list" bool jv "string option"

text \<open>The module's globals, \<^verbatim>\<open>sys.path\<close>, and the effects so far.\<close>

record state =
  WORKSPACE_SETTINGS :: "jv dict dict"
  GLOBAL_SETTINGS :: "jv dict"
  sys_path :: "string list"
  trace :: "event list"

record document =
  uri :: string
  path :: "string option"
  source :: string

definition TOOL_MODULE :: string where
  "TOOL_MODULE = ''unittest_generator''"

definition TOOL_ARGS :: "string list" where
  "TOOL_ARGS = []"

section \<open>Logging and notification\<close>

definition emit :: "event \<Rightarrow> state \<Rightarrow> state" where
  "emit e s = s\<lparr>trace := trace s @ [e]\<rparr>"

definition getenv :: "string option \<Rightarrow> string \<Rightarrow> string" where
  "getenv v dflt = (case v of None \<Rightarrow> dflt | Some x \<Rightarrow> x)"

definition log_to_output :: "string \<Rightarrow> state \<Rightarrow> state" where
  "log_to_output message s = emit (ShowMessageLog message Log) s"

definition log_error :: "env \<Rightarrow> string \<Rightarrow> state \<Rightarrow> state" where
  "log_error env message s =
     (let s1 = emit (ShowMessageLog message Error) s in
      if getenv (LS_SHOW_NOTIFICATION env) ''off'' \<in> set [''onError'', ''onWarning'', ''always'']
      then emit (ShowMessage message Error) s1 else s1)"

definition log_warning :: "env \<Rightarrow> string \<Rightarrow> state \<Rightarrow> state" where
  "log_warning env message s =
     (let s1 = emit (ShowMessageLog message Warning) s in
      if getenv (LS_SHOW_NOTIFICATION env) ''off'' \<in> set [''onWarning'', ''always'']
      then emit (ShowMessage message Warning) s1 else s1)"

section \<open>The settings store\<close>

text \<open>\<^verbatim>\<open>d.get(k, default)\<close>.\<close>

definition dict_get :: "'v dict \<Rightarrow> string \<Rightarrow> 'v \<Rightarrow> 'v" where
  "dict_get d k dflt = (case map_of d k of None \<Rightarrow> dflt | Some v \<Rightarrow> v)"

definition get_global_defaults :: "env \<Rightarrow> state \<Rightarrow> jv dict" where
  "get_global_defaults env s =
     [(''path'', dict_get (GLOBAL_SETTINGS s) ''path'' (Lst [])),
      (''interpreter'', dict_get (GLOBAL_SETTINGS s) ''interpreter'' (Lst [sys_executable env])),
      (''args'', dict_get (GLOBAL_SETTINGS s) ''args'' (Lst [])),
      (''importStrategy'', dict_get (GLOBAL_SETTINGS s) ''importStrategy'' (Str ''useBundled'')),
      (''showNotifications'', dict_get (GLOBAL_SETTINGS s) ''showNotifications'' (Str ''off''))]"

text \<open>
  The record synthesized for a directory \<open>key\<close>:
  \<^verbatim>\<open>{"cwd": key, "workspaceFS": key, "workspace": uris.from_fs_path(key), **_get_global_defaults()}\<close>.
\<close>

definition default_record :: "env \<Rightarrow> state \<Rightarrow> string \<Rightarrow> jv dict" where
  "default_record env s key =
     dict_merge [(''cwd'', Str key), (''workspaceFS'', Str key), (''workspace'', from_fs_path env key)]
       (get_global_defaults env s)"

text \<open>
  The record stored for one config object:
  \<^verbatim>\<open>{"cwd": key, **setting, "workspaceFS": key}\<close>.
\<close>

definition stored_record :: "string \<Rightarrow> jv dict \<Rightarrow> jv dict" where
  "stored_record key setting =
     dict_set ''workspaceFS'' (Str key) (dict_merge [(''cwd'', Str key)] setting)"

text \<open>
  The loop of \<^verbatim>\<open>_update_workspace_settings\<close>. The store is a global that is updated in
  place, so when \<^verbatim>\<open>setting["workspace"]\<close> raises, the records written before stay.
\<close>

fun update_loop :: "env \<Rightarrow> jv dict list \<Rightarrow> jv dict dict \<Rightarrow> (error + unit) \<times> jv dict dict" where
  "update_loop env [] ws = (Inr (), ws)"
| "update_loop env (setting # rest) ws =
     (case getitem setting ''workspace'' of
        Inl e \<Rightarrow> (Inl e, ws)
      | Inr w \<Rightarrow>
          (let key = to_fs_path env w
           in update_loop env rest (dict_set key (stored_record key setting) ws)))"

text \<open>
  \<^verbatim>\<open>not settings\<close> holds for \<^verbatim>\<open>None\<close> and for the empty list: in both cases there is
  no config object to go through.
\<close>

definition update_workspace_settings ::
  "env \<Rightarrow> jv dict list option \<Rightarrow> state \<Rightarrow> (error + unit) \<times> state" where
  "update_workspace_settings env settings s =
     (let cs = (case settings of None \<Rightarrow> [] | Some xs \<Rightarrow> xs) in
      if cs = [] then
        (let key = getcwd env
         in (Inr (), s\<lparr>WORKSPACE_SETTINGS :=
                dict_set key (default_record env s key) (WORKSPACE_SETTINGS s)\<rparr>))
      else
        (let (r, ws) = update_loop env cs (WORKSPACE_SETTINGS s)
         in (r, s\<lparr>WORKSPACE_SETTINGS := ws\<rparr>)))"

section \<open>The settings resolver\<close>

text \<open>
  \<^verbatim>\<open>{s["workspaceFS"] for s in WORKSPACE_SETTINGS.values()}\<close>: a record without the key
  raises \<^verbatim>\<open>KeyError\<close>, a list cannot be a member of a set.
\<close>

fun workspaces :: "jv dict list \<Rightarrow> error + string list" where
  "workspaces [] = Inr []"
| "workspaces (r # rs) =
     (case getitem r ''workspaceFS'' of
        Inl e \<Rightarrow> Inl e
      | Inr (Lst l) \<Rightarrow> Inl TypeError
      | Inr (Str w) \<Rightarrow> (case workspaces rs of Inl e \<Rightarrow> Inl e | Inr ws \<Rightarrow> Inr (w # ws)))"

text \<open>
  The loop shared by \<^verbatim>\<open>_get_settings_by_path\<close> and \<^verbatim>\<open>_get_document_key\<close>:
  \<^verbatim>\<open>while p != p.parent: if str(p) in workspaces: return str(p); p = p.parent\<close>.
\<close>

function walk :: "string list \<Rightarrow> pure_path \<Rightarrow> string option" where
  "walk ws p =
     (if p \<noteq> parent p
      then (if str p \<in> set ws then Some (str p) else walk ws (parent p))
      else None)"
  by pat_completeness auto
termination
proof (relation "measure (\<lambda>(ws, p). length (parts p))")
  show "wf (measure (\<lambda>(ws, p). length (parts p)))" by simp
next
  fix ws :: "string list" and p :: pure_path
  assume "p \<noteq> parent p"
  then have "parts p \<noteq> []" by (auto simp: parent_def)
  then show "((ws, parent p), (ws, p)) \<in> measure (\<lambda>(ws, p). length (parts p))"
    by (simp add: parent_def)
qed

declare walk.simps [simp del]

definition get_settings_by_path :: "state \<Rightarrow> pure_path \<Rightarrow> error + jv dict" where
  "get_settings_by_path s file_path =
     (case workspaces (dict_values (WORKSPACE_SETTINGS s)) of
        Inl e \<Rightarrow> Inl e
      | Inr ws \<Rightarrow>
          (case walk ws file_path of
             Some k \<Rightarrow> getitem (WORKSPACE_SETTINGS s) k
           | None \<Rightarrow>
               (case dict_values (WORKSPACE_SETTINGS s) of
                  [] \<Rightarrow> Inl IndexError
                | r # rs \<Rightarrow> Inr r)))"

definition get_document_key :: "state \<Rightarrow> document \<Rightarrow> error + string option" where
  "get_document_key s doc =
     (if WORKSPACE_SETTINGS s \<noteq> [] then
        (case path doc of
           None \<Rightarrow> Inl TypeError
         | Some p \<Rightarrow>
             (case workspaces (dict_values (WORKSPACE_SETTINGS s)) of
                Inl e \<Rightarrow> Inl e
              | Inr ws \<Rightarrow> Inr (walk ws (Path p))))
      else Inr None)"

definition first_record :: "state \<Rightarrow> error + jv dict" where
  "first_record s =
     (case dict_values (WORKSPACE_SETTINGS s) of [] \<Rightarrow> Inl IndexError | r # rs \<Rightarrow> Inr r)"

definition get_settings_by_document :: "env \<Rightarrow> state \<Rightarrow> document option \<Rightarrow> error + jv dict" where
  "get_settings_by_document env s d =
     (case d of
        None \<Rightarrow> first_record s
      | Some doc \<Rightarrow>
          (case path doc of
             None \<Rightarrow> first_record s
           | Some p \<Rightarrow>
               (case get_document_key s doc of
                  Inl e \<Rightarrow> Inl e
                | Inr None \<Rightarrow> Inr (default_record env s (str (parent (Path p))))
                | Inr (Some key) \<Rightarrow> getitem (WORKSPACE_SETTINGS s) key)))"

section \<open>Internal execution APIs\<close>

text \<open>
  \<^verbatim>\<open>is_python\<close>: only a \<^verbatim>\<open>SyntaxError\<close> of the parser is caught (and logged as an
  error); any other exception of \<^verbatim>\<open>ast.parse\<close> propagates.
\<close>

definition is_python :: "env \<Rightarrow> string \<Rightarrow> state \<Rightarrow> (error + bool) \<times> state" where
  "is_python env code s =
     (case ast_parse env code of
        None \<Rightarrow> (Inr True, s)
      | Some (SyntaxError m) \<Rightarrow>
          (Inr False, log_error env (''Syntax error in code: '' @ format_exc env (SyntaxError m)) s)
      | Some e \<Rightarrow> (Inl e, s))"

text \<open>What an f-string prints for a settings value and for \<^verbatim>\<open>document.path\<close>.\<close>

definition fmt :: "env \<Rightarrow> jv \<Rightarrow> string" where
  "fmt env v = (case v of Str x \<Rightarrow> x | Lst l \<Rightarrow> repr_list env l)"

definition fmt_path :: "string option \<Rightarrow> string" where
  "fmt_path p = (case p of None \<Rightarrow> ''None'' | Some x \<Rightarrow> x)"

text \<open>A settings value used where a list is needed (\<^verbatim>\<open>list + value\<close>, \<^verbatim>\<open>value += list\<close>).\<close>

definition list_of :: "jv \<Rightarrow> error + string list" where
  "list_of v = (case v of Lst l \<Rightarrow> Inr l | Str x \<Rightarrow> Inl TypeError)"

text \<open>
  The locals of \<^verbatim>\<open>_run_tool_on_document\<close> and \<^verbatim>\<open>_run_tool\<close> once the invocation is
  built (lines 286 to 322, and 391 to 412).
\<close>

record plan =
  code_workspace :: jv
  cwd :: jv
  use_path :: bool
  use_rpc :: bool
  argv :: "string list"

text \<open>
  Lines 289 to 305: the flags and the start of \<^verbatim>\<open>argv\<close>. The result is
  \<open>(use_path, use_rpc, argv)\<close>.
\<close>

definition select_on_document :: "env \<Rightarrow> jv dict \<Rightarrow> error + bool \<times> bool \<times> jv" where
  "select_on_document env settings =
     (case getitem settings ''path'' of
        Inl e \<Rightarrow> Inl e
      | Inr p \<Rightarrow>
          if truthy p then Inr (True, False, p)
          else
            (case getitem settings ''interpreter'' of
               Inl e \<Rightarrow> Inl e
             | Inr i \<Rightarrow>
                 if \<not> truthy i then Inr (False, False, Lst [TOOL_MODULE])
                 else
                   (case first_item i of
                      Inl e \<Rightarrow> Inl e
                    | Inr i0 \<Rightarrow>
                        if \<not> is_current_interpreter env i0
                        then Inr (False, True, Lst [TOOL_MODULE])
                        else Inr (False, False, Lst [TOOL_MODULE]))))"

text \<open>Lines 394 to 410: the same chain, written with \<^verbatim>\<open>len(...) > 0\<close>.\<close>

definition select_global :: "env \<Rightarrow> jv dict \<Rightarrow> error + bool \<times> bool \<times> jv" where
  "select_global env settings =
     (case getitem settings ''path'' of
        Inl e \<Rightarrow> Inl e
      | Inr p \<Rightarrow>
          if py_len p > 0 then Inr (True, False, p)
          else
            (case getitem settings ''interpreter'' of
               Inl e \<Rightarrow> Inl e
             | Inr i \<Rightarrow>
                 if \<not> py_len i > 0 then Inr (False, False, Lst [TOOL_MODULE])
                 else
                   (case first_item i of
                      Inl e \<Rightarrow> Inl e
                    | Inr i0 \<Rightarrow>
                        if \<not> is_current_interpreter env i0
                        then Inr (False, True, Lst [TOOL_MODULE])
                        else Inr (False, False, Lst [TOOL_MODULE]))))"

text \<open>
  Lines 286 to 322. A document without a path and without stdin puts \<^verbatim>\<open>None\<close> into
  \<^verbatim>\<open>argv\<close>; every branch that follows starts by joining \<^verbatim>\<open>argv\<close>, which then raises
  \<^verbatim>\<open>TypeError\<close> before anything is logged or run.
\<close>

definition prepare_on_document ::
  "env \<Rightarrow> jv dict \<Rightarrow> document \<Rightarrow> bool \<Rightarrow> string list \<Rightarrow> error + plan" where
  "prepare_on_document env settings doc use_stdin extra_args =
     (case getitem settings ''workspaceFS'' of Inl e \<Rightarrow> Inl e | Inr wfs \<Rightarrow>
      case getitem settings ''cwd'' of Inl e \<Rightarrow> Inl e | Inr dir \<Rightarrow>
      case select_on_document env settings of Inl e \<Rightarrow> Inl e | Inr (up, ur, argv0) \<Rightarrow>
      case getitem settings ''args'' of Inl e \<Rightarrow> Inl e | Inr a \<Rightarrow>
      case list_of a of Inl e \<Rightarrow> Inl e | Inr al \<Rightarrow>
      case list_of argv0 of Inl e \<Rightarrow> Inl e | Inr av \<Rightarrow>
      case (if use_stdin then Inr []
            else case path doc of None \<Rightarrow> Inl TypeError | Some p \<Rightarrow> Inr [p]) of
        Inl e \<Rightarrow> Inl e
      | Inr tail \<Rightarrow>
          Inr \<lparr>code_workspace = wfs, cwd = dir, use_path = up, use_rpc = ur,
               argv = av @ TOOL_ARGS @ al @ extra_args @ tail\<rparr>)"

text \<open>Lines 391 to 412: only the call-site arguments are added.\<close>

definition prepare_global :: "env \<Rightarrow> jv dict \<Rightarrow> string list \<Rightarrow> error + plan" where
  "prepare_global env settings extra_args =
     (case getitem settings ''workspaceFS'' of Inl e \<Rightarrow> Inl e | Inr wfs \<Rightarrow>
      case select_global env settings of Inl e \<Rightarrow> Inl e | Inr (up, ur, argv0) \<Rightarrow>
      case list_of argv0 of Inl e \<Rightarrow> Inl e | Inr av \<Rightarrow>
        Inr \<lparr>code_workspace = wfs, cwd = wfs, use_path = up, use_rpc = ur,
             argv = av @ extra_args\<rparr>)"

text \<open>
  \<^verbatim>\<open>utils.substitute_attr(sys, "path", new_value)\<close> around a block.

  Modelled from the spec: \<^verbatim>\<open>substitute_attr\<close> is defined in \<^verbatim>\<open>lsp_utils\<close>, which is not
  among the sources. The spec says the module search path is substituted by a scoped copy
  for the duration of the call and "restored unconditionally afterward, including on
  failure".
\<close>

definition substitute_attr ::
  "string list \<Rightarrow> (state \<Rightarrow> (error + 'a) \<times> state) \<Rightarrow> state \<Rightarrow> (error + 'a) \<times> state" where
  "substitute_attr new_value body s =
     (let old_value = sys_path s;
          (r, s') = body (s\<lparr>sys_path := new_value\<rparr>)
      in (r, s'\<lparr>sys_path := old_value\<rparr>))"

text \<open>
  The block under \<^verbatim>\<open>with\<close>: the tool runs on the \<^verbatim>\<open>sys.path\<close> in force and may change
  it; an exception is logged and raised again.
\<close>

definition run_module_logged ::
  "env \<Rightarrow> string list \<Rightarrow> bool \<Rightarrow> jv \<Rightarrow> string option \<Rightarrow> state \<Rightarrow> (error + run_result) \<times> state" where
  "run_module_logged env av use_stdin dir src s =
     (let (r, sp) = run_module env TOOL_MODULE av use_stdin dir src (sys_path s);
          s1 = (emit (RunModule TOOL_MODULE av use_stdin dir src) s)\<lparr>sys_path := sp\<rparr>
      in case r of
           Inl e \<Rightarrow> (Inl e, log_error env (format_exc env e) s1)
         | Inr res \<Rightarrow> (Inr res, s1))"

text \<open>\<^verbatim>\<open>if result.stderr: log_to_output(result.stderr)\<close>.\<close>

definition log_stderr :: "run_result \<Rightarrow> state \<Rightarrow> state" where
  "log_stderr result s = (if stderr result \<noteq> [] then log_to_output (stderr result) s else s)"

text \<open>
  The three branches (lines 324 to 380 and 414 to 459). The two functions differ in the
  stdin flag and in the source text they pass: \<open>path_src\<close> goes to \<^verbatim>\<open>run_path\<close>, \<open>src\<close>
  to the other two backends.
\<close>

definition path_branch ::
  "env \<Rightarrow> plan \<Rightarrow> bool \<Rightarrow> string option \<Rightarrow> state \<Rightarrow> (error + run_result) \<times> state" where
  "path_branch env p use_stdin path_src s =
     (let s1 = log_to_output (join '' '' (argv p)) s;
          s2 = log_to_output (''CWD Server: '' @ fmt env (cwd p)) s1;
          s3 = emit (RunPath (argv p) use_stdin (cwd p) path_src) s2
      in case run_path env (argv p) use_stdin (cwd p) path_src of
           Inl e \<Rightarrow> (Inl e, s3)
         | Inr result \<Rightarrow> (Inr result, log_stderr result s3))"

text \<open>
  The RPC branch once \<^verbatim>\<open>settings["interpreter"] + ["-m"] + argv\<close> is computed. A result
  with a non-empty \<^verbatim>\<open>exception\<close> is replaced by
  \<^verbatim>\<open>utils.RunResult(result.stdout, result.stderr)\<close>.
\<close>

definition rpc_run ::
  "env \<Rightarrow> plan \<Rightarrow> bool \<Rightarrow> string option \<Rightarrow> jv \<Rightarrow> string list \<Rightarrow> state
     \<Rightarrow> (error + run_result) \<times> state" where
  "rpc_run env p use_stdin src interp il s =
     (let s1 = log_to_output (join '' '' (il @ [''-m''] @ argv p)) s;
          s2 = log_to_output (''CWD Linter: '' @ fmt env (cwd p)) s1;
          s3 = emit (RunOverJsonRpc (code_workspace p) interp TOOL_MODULE (argv p)
                       use_stdin (cwd p) src) s2
      in case run_over_json_rpc env (code_workspace p) interp TOOL_MODULE (argv p)
                use_stdin (cwd p) src of
           Inl e \<Rightarrow> (Inl e, s3)
         | Inr result \<Rightarrow>
             (case exception result of
                Inl e \<Rightarrow> (Inl e, s3)
              | Inr (Some (c # cs)) \<Rightarrow>
                  (Inr (RunResult (stdout result) (stderr result)),
                   log_error env (c # cs) s3)
              | Inr exc \<Rightarrow> (Inr result, log_stderr result s3)))"

definition rpc_branch ::
  "env \<Rightarrow> jv dict \<Rightarrow> plan \<Rightarrow> bool \<Rightarrow> string option \<Rightarrow> state \<Rightarrow> (error + run_result) \<times> state" where
  "rpc_branch env settings p use_stdin src s =
     (case getitem settings ''interpreter'' of Inl e \<Rightarrow> (Inl e, s) | Inr interp \<Rightarrow>
      case list_of interp of Inl e \<Rightarrow> (Inl e, s) | Inr il \<Rightarrow>
        rpc_run env p use_stdin src interp il s)"

definition module_branch ::
  "env \<Rightarrow> plan \<Rightarrow> bool \<Rightarrow> string option \<Rightarrow> state \<Rightarrow> (error + run_result) \<times> state" where
  "module_branch env p use_stdin src s =
     (let s1 = log_to_output (join '' '' ([sys_executable env, ''-m''] @ argv p)) s;
          s2 = log_to_output (''CWD Linter: '' @ fmt env (cwd p)) s1
      in case substitute_attr (sys_path s2)
                (run_module_logged env (argv p) use_stdin (cwd p) src) s2 of
           (Inl e, s3) \<Rightarrow> (Inl e, s3)
         | (Inr result, s3) \<Rightarrow> (Inr result, log_stderr result s3))"

definition invoke ::
  "env \<Rightarrow> jv dict \<Rightarrow> plan \<Rightarrow> bool \<Rightarrow> string option \<Rightarrow> string option \<Rightarrow> state
     \<Rightarrow> (error + run_result) \<times> state" where
  "invoke env settings p use_stdin path_src src s =
     (if use_path p then path_branch env p use_stdin path_src s
      else if use_rpc p then rpc_branch env settings p use_stdin src s
      else module_branch env p use_stdin src s)"

definition run_tool_on_document ::
  "env \<Rightarrow> document \<Rightarrow> bool \<Rightarrow> string list option \<Rightarrow> state
     \<Rightarrow> (error + run_result option) \<times> state" where
  "run_tool_on_document env doc use_stdin extra_args s =
     (let extra = (case extra_args of None \<Rightarrow> [] | Some xs \<Rightarrow> xs) in
      if startswith (uri doc) ''vscode-notebook-cell'' then (Inr None, s)
      else case is_python env (source doc) s of
        (Inl e, s1) \<Rightarrow> (Inl e, s1)
      | (Inr False, s1) \<Rightarrow>
          (Inr None, log_warning env (''Skipping non python code: '' @ fmt_path (path doc)) s1)
      | (Inr True, s1) \<Rightarrow>
          if is_stdlib_file env (path doc) then (Inr None, s1)
          else case get_settings_by_document env s1 (Some doc) of
            Inl e \<Rightarrow> (Inl e, s1)
          | Inr settings \<Rightarrow>
              (case prepare_on_document env settings doc use_stdin extra of
                 Inl e \<Rightarrow> (Inl e, s1)
               | Inr p \<Rightarrow>
                   (case invoke env settings p use_stdin
                           (Some (replace_crlf (source doc))) (Some (source doc)) s1 of
                      (Inl e, s2) \<Rightarrow> (Inl e, s2)
                    | (Inr result, s2) \<Rightarrow>
                        (Inr (Some result),
                         log_to_output (uri doc @ '' :'' @ [CR, LF] @ stdout result) s2))))"

definition run_tool :: "env \<Rightarrow> string list \<Rightarrow> state \<Rightarrow> (error + run_result) \<times> state" where
  "run_tool env extra_args s =
     (case get_settings_by_document env s None of
        Inl e \<Rightarrow> (Inl e, s)
      | Inr settings \<Rightarrow>
          (case prepare_global env settings extra_args of
             Inl e \<Rightarrow> (Inl e, s)
           | Inr p \<Rightarrow>
               (case invoke env settings p True None None s of
                  (Inl e, s1) \<Rightarrow> (Inl e, s1)
                | (Inr result, s1) \<Rightarrow>
                    (Inr result, log_to_output ([CR, LF] @ stdout result @ [CR, LF]) s1))))"

section \<open>Notions used to state the properties\<close>

text \<open>The workspace root a config object names, if it names one.\<close>

definition root_of :: "env \<Rightarrow> jv dict \<Rightarrow> string option" where
  "root_of env setting = map_option (to_fs_path env) (map_of setting ''workspace'')"

text \<open>Every record of the store carries its own key as \<^verbatim>\<open>workspaceFS\<close>.\<close>

definition store_ok :: "jv dict dict \<Rightarrow> bool" where
  "store_ok ws = list_all (\<lambda>(k, r). map_of r ''workspaceFS'' = Some (Str k)) ws"

text \<open>Every record of the store carries its own key as \<^verbatim>\<open>workspaceFS\<close> and as \<^verbatim>\<open>cwd\<close>.\<close>

definition keyed :: "jv dict dict \<Rightarrow> bool" where
  "keyed ws =
     list_all (\<lambda>(k, r). map_of r ''workspaceFS'' = Some (Str k) \<and> map_of r ''cwd'' = Some (Str k)) ws"

definition inbound_fields :: "string list" where
  "inbound_fields =
     [''workspace'', ''path'', ''interpreter'', ''args'', ''importStrategy'', ''showNotifications'']"

definition only_inbound :: "jv dict list option \<Rightarrow> bool" where
  "only_inbound settings =
     (case settings of
        None \<Rightarrow> True
      | Some cs \<Rightarrow> list_all (\<lambda>c. list_all (\<lambda>(k, v). k \<in> set inbound_fields) c) cs)"

text \<open>
  The strings the resolver's loop compares with the workspace roots, in the order it
  compares them: the path itself, then each ancestor, the one without components left out.
\<close>

definition candidates :: "pure_path \<Rightarrow> string list" where
  "candidates p = map (\<lambda>ps. str (p\<lparr>parts := ps\<rparr>)) (rev (tl (prefixes (parts p))))"

text \<open>
  The three strategies of the spec, read off the two flags as the dispatch does
  (\<^verbatim>\<open>if use_path: ... elif use_rpc: ... else: ...\<close>).
\<close>

datatype strategy = DirectPath | CrossRuntimeRpc | InProcessModule

definition strategy_of :: "bool \<Rightarrow> bool \<Rightarrow> strategy" where
  "strategy_of up ur = (if up then DirectPath else if ur then CrossRuntimeRpc else InProcessModule)"

definition selection :: "error + bool \<times> bool \<times> jv \<Rightarrow> error + strategy" where
  "selection r = (case r of Inl e \<Rightarrow> Inl e | Inr (up, ur, a) \<Rightarrow> Inr (strategy_of up ur))"

text \<open>
  The priority of section 4.2 of the spec, for a tool path \<open>tp\<close> and an interpreter
  path \<open>ip\<close>.
\<close>

definition expected_strategy :: "env \<Rightarrow> string list \<Rightarrow> string list \<Rightarrow> strategy" where
  "expected_strategy env tp ip =
     (if tp \<noteq> [] then DirectPath
      else if ip \<noteq> [] \<and> \<not> is_current_interpreter env (hd ip) then CrossRuntimeRpc
      else InProcessModule)"

text \<open>The log entries and the backend calls of a trace.\<close>

fun log_entries :: "event list \<Rightarrow> (string \<times> msg_type) list" where
  "log_entries [] = []"
| "log_entries (ShowMessageLog m t # es) = (m, t) # log_entries es"
| "log_entries (e # es) = log_entries es"

fun is_call :: "event \<Rightarrow> bool" where
  "is_call (ShowMessageLog m t) = False"
| "is_call (ShowMessage m t) = False"
| "is_call e = True"

definition backend_calls :: "event list \<Rightarrow> event list" where
  "backend_calls es = filter is_call es"


section \<open>Example inputs\<close>

text \<open>
  A process in \<^verbatim>\<open>/home/user\<close> running \<^verbatim>\<open>/usr/bin/python3\<close>; the source \<^verbatim>\<open>def\<close> does
  not parse; the RPC backend answers with output and a remote exception; the tool run as
  a module puts a directory in front of \<^verbatim>\<open>sys.path\<close>.
\<close>

definition env0 :: env where
  "env0 =
     \<lparr>getcwd = ''/home/user'',
      sys_executable = ''/usr/bin/python3'',
      to_fs_path = (\<lambda>v. case v of Str u \<Rightarrow> drop 7 u | Lst l \<Rightarrow> []),
      from_fs_path = (\<lambda>p. Str (''file://'' @ p)),
      is_current_interpreter = (\<lambda>i. i = ''/usr/bin/python3''),
      is_stdlib_file = (\<lambda>p. case p of None \<Rightarrow> False | Some x \<Rightarrow> startswith x ''/usr/lib/python3''),
      ast_parse = (\<lambda>code. if code = ''def'' then Some (SyntaxError ''invalid syntax'') else None),
      format_exc = (\<lambda>e. ''Traceback''),
      repr_list = (\<lambda>l. ''['' @ join '', '' l @ '']''),
      LS_SHOW_NOTIFICATION = None,
      run_path = (\<lambda>av us dir src. Inr (RunResult ''path out'' [])),
      run_over_json_rpc =
        (\<lambda>wfs interp m av us dir src.
           Inr (RpcRunResult ''partial output'' ''remote warning'' (Some ''Traceback: boom''))),
      run_module =
        (\<lambda>m av us dir src sp. (Inr (RunResult ''module out'' []), ''/tool/injected'' # sp))\<rparr>"

text \<open>The same process with a tool whose entry point changes \<^verbatim>\<open>sys.path\<close> and raises.\<close>

definition env_raise :: env where
  "env_raise =
     env0\<lparr>run_module :=
        (\<lambda>m av us dir src sp. (Inl (OtherException ''boom''), ''/tool/injected'' # sp))\<rparr>"

definition config :: "string \<Rightarrow> string list \<Rightarrow> string list \<Rightarrow> string list \<Rightarrow> jv dict" where
  "config w tp ip ua =
     [(''workspace'', Str w), (''path'', Lst tp), (''interpreter'', Lst ip), (''args'', Lst ua),
      (''importStrategy'', Str ''useBundled''), (''showNotifications'', Str ''off'')]"

definition s_empty :: state where
  "s_empty = \<lparr>WORKSPACE_SETTINGS = [], GLOBAL_SETTINGS = [], sys_path = [''/srv/libs''], trace = []\<rparr>"

text \<open>The state of a server initialized with the payload.\<close>

definition state_with :: "jv dict list \<Rightarrow> state" where
  "state_with payload = snd (update_workspace_settings env0 (Some payload) s_empty)"

definition doc_x :: document where
  "doc_x = \<lparr>uri = ''file:///proj/x.src'', path = Some ''/proj/x.src'', source = ''x = 1''\<rparr>"

section \<open>Dictionaries\<close>

lemma map_of_dict_set: "map_of (dict_set k v d) = (map_of d)(k \<mapsto> v)"
  by (induction d) (auto simp: fun_eq_iff)

lemma keys_dict_set: "fst ` set (dict_set k v d) = insert k (fst ` set d)"
  by (simp add: dom_map_of_conv_image_fst [symmetric] map_of_dict_set)

lemma distinct_dict_set: "distinct (map fst d) \<Longrightarrow> distinct (map fst (dict_set k v d))"
  by (induction d) (auto simp: keys_dict_set)

lemma dict_set_not_Nil: "dict_set k v d \<noteq> []"
  by (cases d) (auto split: if_splits)

lemma dict_merge_Nil: "dict_merge d [] = d"
  by (simp add: dict_merge_def)

lemma dict_merge_Cons: "dict_merge d ((k, v) # e) = dict_merge (dict_set k v d) e"
  by (simp add: dict_merge_def)

lemma map_of_dict_merge_other: "k \<notin> fst ` set e \<Longrightarrow> map_of (dict_merge d e) k = map_of d k"
  by (induction e arbitrary: d) (auto simp: dict_merge_Nil dict_merge_Cons map_of_dict_set)

lemma stored_record_workspaceFS: "map_of (stored_record key setting) ''workspaceFS'' = Some (Str key)"
  by (simp add: stored_record_def map_of_dict_set)

lemma stored_record_cwd:
  "''cwd'' \<notin> fst ` set setting \<Longrightarrow> map_of (stored_record key setting) ''cwd'' = Some (Str key)"
  by (simp add: stored_record_def map_of_dict_set map_of_dict_merge_other)

lemma default_record_workspaceFS: "map_of (default_record env s key) ''workspaceFS'' = Some (Str key)"
  by (simp add: default_record_def get_global_defaults_def dict_merge_Cons dict_merge_Nil map_of_dict_set)

lemma default_record_cwd: "map_of (default_record env s key) ''cwd'' = Some (Str key)"
  by (simp add: default_record_def get_global_defaults_def dict_merge_Cons dict_merge_Nil map_of_dict_set)


section \<open>The update loop\<close>

lemma set_dict_set: "set (dict_set k v d) \<subseteq> insert (k, v) (set d)"
  by (induction d) (auto split: if_splits)

lemma update_loop_roots:
  "update_loop env payload ws = (Inr (), ws') \<Longrightarrow> \<forall>c\<in>set payload. root_of env c \<noteq> None"
  by (induction payload arbitrary: ws)
     (auto simp: getitem_def root_of_def Let_def split: option.splits)

lemma update_loop_keys:
  "update_loop env payload ws = (Inr (), ws') \<Longrightarrow>
   fst ` set ws' = fst ` set ws \<union> {k. \<exists>c\<in>set payload. root_of env c = Some k}"
proof (induction payload arbitrary: ws)
  case Nil
  then show ?case by simp
next
  case (Cons c cs)
  then obtain w where w: "map_of c ''workspace'' = Some w"
    by (auto simp: getitem_def split: option.splits)
  let ?k = "to_fs_path env w"
  from Cons.prems w have "update_loop env cs (dict_set ?k (stored_record ?k c) ws) = (Inr (), ws')"
    by (simp add: getitem_def Let_def)
  from Cons.IH [OF this] w show ?case
    by (auto simp: keys_dict_set root_of_def)
qed

lemma update_loop_distinct:
  "distinct (map fst ws) \<Longrightarrow> distinct (map fst (snd (update_loop env payload ws)))"
  by (induction payload arbitrary: ws)
     (auto simp: getitem_def Let_def distinct_dict_set split: option.splits)

lemma update_loop_other:
  "\<forall>c\<in>set payload. root_of env c \<noteq> Some k \<Longrightarrow>
   map_of (snd (update_loop env payload ws)) k = map_of ws k"
  by (induction payload arbitrary: ws)
     (auto simp: getitem_def Let_def map_of_dict_set root_of_def split: option.splits)

lemma update_loop_root:
  "update_loop env payload ws = (Inr (), ws') \<Longrightarrow> c \<in> set payload \<Longrightarrow> root_of env c = Some k \<Longrightarrow>
   \<exists>c'\<in>set payload. root_of env c' = Some k \<and> map_of ws' k = Some (stored_record k c')"
proof (induction payload arbitrary: ws c)
  case Nil
  then show ?case by simp
next
  case (Cons d ds)
  then obtain w where w: "map_of d ''workspace'' = Some w"
    by (auto simp: getitem_def split: option.splits)
  let ?k = "to_fs_path env w"
  let ?ws = "dict_set ?k (stored_record ?k d) ws"
  from Cons.prems w have run: "update_loop env ds ?ws = (Inr (), ws')"
    by (simp add: getitem_def Let_def)
  show ?case
  proof (cases "\<exists>c'\<in>set ds. root_of env c' = Some k")
    case True
    then obtain c' where "c' \<in> set ds" "root_of env c' = Some k" by blast
    from Cons.IH [OF run this] show ?thesis by auto
  next
    case False
    with Cons.prems have dk: "root_of env d = Some k" by auto
    with w have k: "?k = k" by (simp add: root_of_def)
    from False have "map_of (snd (update_loop env ds ?ws)) k = map_of ?ws k"
      by (intro update_loop_other) auto
    with run k have "map_of ws' k = Some (stored_record k d)"
      by (simp add: map_of_dict_set)
    with dk show ?thesis by auto
  qed
qed

lemma update_loop_keyed:
  "keyed ws \<Longrightarrow> list_all (\<lambda>c. list_all (\<lambda>(k, v). k \<in> set inbound_fields) c) payload \<Longrightarrow>
   keyed (snd (update_loop env payload ws))"
proof (induction payload arbitrary: ws)
  case Nil
  then show ?case by simp
next
  case (Cons c cs)
  show ?case
  proof (cases "map_of c ''workspace''")
    case None
    with Cons.prems show ?thesis by (simp add: getitem_def Let_def)
  next
    case (Some w)
    let ?k = "to_fs_path env w"
    from Cons.prems(2) have "''cwd'' \<notin> fst ` set c"
      by (auto simp: list_all_iff inbound_fields_def)
    then have "map_of (stored_record ?k c) ''cwd'' = Some (Str ?k)"
      by (rule stored_record_cwd)
    with Cons.prems(1) set_dict_set [of ?k "stored_record ?k c" ws]
    have "keyed (dict_set ?k (stored_record ?k c) ws)"
      by (auto simp: keyed_def list_all_iff stored_record_workspaceFS)
    from Cons.IH [OF this] Cons.prems(2) Some show ?thesis
      by (simp add: getitem_def Let_def)
  qed
qed

lemma update_loop_store_ok:
  "store_ok ws \<Longrightarrow> store_ok (snd (update_loop env payload ws))"
proof (induction payload arbitrary: ws)
  case Nil
  then show ?case by simp
next
  case (Cons c cs)
  show ?case
  proof (cases "map_of c ''workspace''")
    case None
    with Cons.prems show ?thesis by (simp add: getitem_def Let_def)
  next
    case (Some w)
    let ?k = "to_fs_path env w"
    from Cons.prems set_dict_set [of ?k "stored_record ?k c" ws]
    have "store_ok (dict_set ?k (stored_record ?k c) ws)"
      by (auto simp: store_ok_def list_all_iff stored_record_workspaceFS)
    from Cons.IH [OF this] Some show ?thesis
      by (simp add: getitem_def Let_def)
  qed
qed

section \<open>The resolver's walk\<close>

lemma workspaces_store_ok: "store_ok ws \<Longrightarrow> workspaces (dict_values ws) = Inr (map fst ws)"
  by (induction ws) (auto simp: store_ok_def dict_values_def getitem_def)

lemma parent_neq: "(p \<noteq> parent p) = (parts p \<noteq> [])"
proof
  assume "p \<noteq> parent p" then show "parts p \<noteq> []" by (auto simp: parent_def)
next
  assume ne: "parts p \<noteq> []"
  then have "length (parts (parent p)) < length (parts p)" by (simp add: parent_def)
  then show "p \<noteq> parent p" by auto
qed

lemma candidates_Nil: "parts p = [] \<Longrightarrow> candidates p = []"
  by (simp add: candidates_def)

lemma candidates_step: "parts p \<noteq> [] \<Longrightarrow> candidates p = str p # candidates (parent p)"
proof -
  assume ne: "parts p \<noteq> []"
  then obtain ys y where ys: "parts p = ys @ [y]" by (metis rev_exhaust)
  define f where "f = (\<lambda>ps. str (p\<lparr>parts := ps\<rparr>))"
  have "prefixes ys \<noteq> []" by (cases ys) auto
  then have r: "rev (tl (prefixes (ys @ [y]))) = (ys @ [y]) # rev (tl (prefixes ys))"
    by (simp add: prefixes_snoc)
  have top: "f (ys @ [y]) = str p" by (simp add: f_def ys [symmetric])
  have par: "candidates (parent p) = map f (rev (tl (prefixes ys)))"
    using ys by (simp add: candidates_def parent_def f_def)
  have "candidates p = map f (rev (tl (prefixes (ys @ [y]))))"
    by (simp add: candidates_def ys f_def)
  with r top par show ?thesis by simp
qed

lemma walk_find: "walk ws p = List.find (\<lambda>c. c \<in> set ws) (candidates p)"
proof (induction ws p rule: walk.induct)
  case (1 ws p)
  show ?case
  proof (cases "parts p = []")
    case True
    then show ?thesis by (subst walk.simps) (simp add: parent_neq candidates_Nil)
  next
    case False
    then have "p \<noteq> parent p" by (simp add: parent_neq)
    with 1 False show ?thesis
      by (subst walk.simps) (simp add: candidates_step)
  qed
qed

lemma walk_in: "walk ws p = Some k \<Longrightarrow> k \<in> set ws"
  by (auto simp: walk_find find_Some_iff)

lemma getitem_key: "k \<in> fst ` set d \<Longrightarrow> \<exists>v. getitem d k = Inr v"
  by (cases "map_of d k") (auto simp: getitem_def map_of_eq_None_iff)

lemma resolve_total:
  assumes ok: "store_ok (WORKSPACE_SETTINGS s)"
    and inp: "WORKSPACE_SETTINGS s \<noteq> [] \<or> (\<exists>doc p. d = Some doc \<and> path doc = Some p)"
  shows "\<exists>r. get_settings_by_document env s d = Inr r"
proof (cases "\<exists>doc p. d = Some doc \<and> path doc = Some p")
  case True
  then obtain doc p where d: "d = Some doc" "path doc = Some p" by blast
  show ?thesis
  proof (cases "WORKSPACE_SETTINGS s = []")
    case True
    with d show ?thesis by (simp add: get_settings_by_document_def get_document_key_def)
  next
    case False
    let ?w = "walk (map fst (WORKSPACE_SETTINGS s)) (Path p)"
    from False d ok have key: "get_document_key s doc = Inr ?w"
      by (simp add: get_document_key_def workspaces_store_ok)
    show ?thesis
    proof (cases ?w)
      case None
      with key d show ?thesis by (simp add: get_settings_by_document_def)
    next
      case (Some k)
      then have "k \<in> fst ` set (WORKSPACE_SETTINGS s)" using walk_in by fastforce
      then obtain v where "getitem (WORKSPACE_SETTINGS s) k = Inr v" using getitem_key by blast
      with key d Some show ?thesis by (simp add: get_settings_by_document_def)
    qed
  qed
next
  case False
  with inp have ne: "WORKSPACE_SETTINGS s \<noteq> []" by blast
  then obtain e es where "WORKSPACE_SETTINGS s = e # es" by (cases "WORKSPACE_SETTINGS s") auto
  then have fr: "\<exists>r. first_record s = Inr r" by (simp add: first_record_def dict_values_def)
  from False show ?thesis
    by (cases d) (auto simp: get_settings_by_document_def fr split: option.splits)
qed

section \<open>The store after an update\<close>

lemma update_store_ok:
  "store_ok (WORKSPACE_SETTINGS s) \<Longrightarrow>
   store_ok (WORKSPACE_SETTINGS (snd (update_workspace_settings env settings s)))"
proof (cases "settings = None \<or> settings = Some []")
  case True
  assume ok: "store_ok (WORKSPACE_SETTINGS s)"
  let ?k = "getcwd env"
  from ok set_dict_set [of ?k "default_record env s ?k" "WORKSPACE_SETTINGS s"]
  have "store_ok (dict_set ?k (default_record env s ?k) (WORKSPACE_SETTINGS s))"
    by (auto simp: store_ok_def list_all_iff default_record_workspaceFS)
  with True show ?thesis by (auto simp: update_workspace_settings_def Let_def)
next
  case False
  assume ok: "store_ok (WORKSPACE_SETTINGS s)"
  from False obtain cs where cs: "settings = Some cs" by (cases settings) auto
  from ok have "store_ok (snd (update_loop env cs (WORKSPACE_SETTINGS s)))"
    by (rule update_loop_store_ok)
  with False cs show ?thesis
    by (auto simp: update_workspace_settings_def split: prod.splits)
qed

lemma first_record_default:
  assumes "WORKSPACE_SETTINGS s = []" and "settings = None \<or> settings = Some []"
  shows "get_settings_by_document env (snd (update_workspace_settings env settings s)) None =
           Inr (default_record env s (getcwd env))"
  using assms
  by (auto simp: update_workspace_settings_def Let_def get_settings_by_document_def
        first_record_def dict_values_def)

text \<open>
  C2, as the code has it. The update never removes a record: it is a merge into the
  store. For a non-empty payload that the update accepts, the keys afterwards are the
  keys before together with the payload's workspace roots; keys stay unique; a root that
  the payload does not name keeps the record it had; and a root that the payload names
  holds the record built from one of the payload's config objects for that root.
\<close>

theorem update_merges:
  assumes ne: "payload \<noteq> []"
    and run: "update_workspace_settings env (Some payload) s = (Inr (), s')"
  shows "fst ` set (WORKSPACE_SETTINGS s') =
           fst ` set (WORKSPACE_SETTINGS s) \<union> {k. \<exists>c\<in>set payload. root_of env c = Some k}
       \<and> (distinct (map fst (WORKSPACE_SETTINGS s)) \<longrightarrow> distinct (map fst (WORKSPACE_SETTINGS s')))
       \<and> (\<forall>k. (\<forall>c\<in>set payload. root_of env c \<noteq> Some k) \<longrightarrow>
               map_of (WORKSPACE_SETTINGS s') k = map_of (WORKSPACE_SETTINGS s) k)
       \<and> (\<forall>k. (\<exists>c\<in>set payload. root_of env c = Some k) \<longrightarrow>
               (\<exists>c\<in>set payload. root_of env c = Some k \<and>
                  map_of (WORKSPACE_SETTINGS s') k = Some (stored_record k c)))"
proof -
  obtain ws' where loop: "update_loop env payload (WORKSPACE_SETTINGS s) = (Inr (), ws')"
    and s': "WORKSPACE_SETTINGS s' = ws'"
    using ne run by (auto simp: update_workspace_settings_def split: prod.splits)
  have snd_loop: "snd (update_loop env payload (WORKSPACE_SETTINGS s)) = ws'"
    using loop by simp
  have a: "fst ` set ws' =
      fst ` set (WORKSPACE_SETTINGS s) \<union> {k. \<exists>c\<in>set payload. root_of env c = Some k}"
    using loop by (rule update_loop_keys)
  have b: "distinct (map fst (WORKSPACE_SETTINGS s)) \<longrightarrow> distinct (map fst ws')"
    using update_loop_distinct [of "WORKSPACE_SETTINGS s" env payload] snd_loop by simp
  have c: "\<forall>k. (\<forall>c\<in>set payload. root_of env c \<noteq> Some k) \<longrightarrow>
               map_of ws' k = map_of (WORKSPACE_SETTINGS s) k"
    using update_loop_other [of payload env _ "WORKSPACE_SETTINGS s"] snd_loop by simp
  have d: "\<forall>k. (\<exists>c\<in>set payload. root_of env c = Some k) \<longrightarrow>
               (\<exists>c\<in>set payload. root_of env c = Some k \<and> map_of ws' k = Some (stored_record k c))"
    using update_loop_root [OF loop] by blast
  from a b c d s' show ?thesis by simp
qed

text \<open>
  The store holds the root \<^verbatim>\<open>/old\<close>; the payload names \<^verbatim>\<open>/new\<close> only. The record of
  \<^verbatim>\<open>/old\<close> is still there, unchanged.
\<close>

theorem update_merges_witness:
  "map_of (WORKSPACE_SETTINGS (snd (update_workspace_settings env0
       (Some [config ''file:///new'' [] [] []]) (state_with [config ''file:///old'' [] [] []]))))
     ''/old''
   = map_of (WORKSPACE_SETTINGS (state_with [config ''file:///old'' [] [] []])) ''/old''"
proof -
  have run: "update_workspace_settings env0 (Some [config ''file:///new'' [] [] []])
        (state_with [config ''file:///old'' [] [] []]) =
      (Inr (), snd (update_workspace_settings env0 (Some [config ''file:///new'' [] [] []])
        (state_with [config ''file:///old'' [] [] []])))"
    by code_simp
  have root: "root_of env0 (config ''file:///new'' [] [] []) = Some ''/new''"
    by code_simp
  show ?thesis using update_merges [OF _ run] by (simp add: root)
qed

text \<open>
  C2 as stated fails: after the update with a payload that names \<^verbatim>\<open>/new\<close> only, the
  store still has the stale root \<^verbatim>\<open>/old\<close>.
\<close>

theorem update_keeps_stale_root_counterexample:
  "map fst (WORKSPACE_SETTINGS (snd (update_workspace_settings env0
       (Some [config ''file:///new'' [] [] []])
       (state_with [config ''file:///old'' [] [] []])))) = [''/old'', ''/new'']"
  by code_simp

text \<open>
  C10. If every record of the store carries its key as \<^verbatim>\<open>workspaceFS\<close> and as \<^verbatim>\<open>cwd\<close>,
  and the config objects of the payload carry inbound fields only, then the same holds of
  the store after the update, whatever the payload (none, empty, or a list) and whether or
  not the update ends in an exception.
\<close>

theorem update_keeps_keyed:
  assumes k: "keyed (WORKSPACE_SETTINGS s)" and inb: "only_inbound settings"
  shows "keyed (WORKSPACE_SETTINGS (snd (update_workspace_settings env settings s)))"
proof (cases "settings = None \<or> settings = Some []")
  case True
  let ?k = "getcwd env"
  from k set_dict_set [of ?k "default_record env s ?k" "WORKSPACE_SETTINGS s"]
  have "keyed (dict_set ?k (default_record env s ?k) (WORKSPACE_SETTINGS s))"
    by (auto simp: keyed_def list_all_iff default_record_workspaceFS default_record_cwd)
  with True show ?thesis by (auto simp: update_workspace_settings_def Let_def)
next
  case False
  then obtain cs where cs: "settings = Some cs" by (cases settings) auto
  with inb have "list_all (\<lambda>c. list_all (\<lambda>(k, v). k \<in> set inbound_fields) c) cs"
    by (simp add: only_inbound_def)
  with k have "keyed (snd (update_loop env cs (WORKSPACE_SETTINGS s)))"
    by (rule update_loop_keyed)
  with False cs show ?thesis
    by (auto simp: update_workspace_settings_def split: prod.splits)
qed

theorem update_keeps_keyed_witness:
  "keyed (WORKSPACE_SETTINGS (snd (update_workspace_settings env0
     (Some [config ''file:///a'' [] [] [], config ''file:///a/b'' [''/usr/bin/tool''] [] [''-q'']])
     (state_with [config ''file:///old'' [] [] []]))))"
proof -
  have k: "keyed (WORKSPACE_SETTINGS (state_with [config ''file:///old'' [] [] []]))"
    by code_simp
  have i: "only_inbound
     (Some [config ''file:///a'' [] [] [], config ''file:///a/b'' [''/usr/bin/tool''] [] [''-q'']])"
    by code_simp
  show ?thesis using update_keeps_keyed [OF k i] .
qed

section \<open>Resolution\<close>

text \<open>
  C3, as the code has it. Resolution returns a record whenever the store is non-empty or
  a document with a path is given (the records of the store carrying their keys, which
  every update keeps true). The default record for "no document" is made by the update,
  not by the resolver: after an update with no payload on an empty store, resolving
  without a document returns a record whose \<^verbatim>\<open>workspaceFS\<close> is the working directory.
\<close>

theorem resolution_total:
  "(store_ok (WORKSPACE_SETTINGS s) \<and>
      (WORKSPACE_SETTINGS s \<noteq> [] \<or> (\<exists>doc p. d = Some doc \<and> path doc = Some p))
      \<longrightarrow> (\<exists>r. get_settings_by_document env s d = Inr r))
   \<and> (store_ok (WORKSPACE_SETTINGS s) \<longrightarrow>
        store_ok (WORKSPACE_SETTINGS (snd (update_workspace_settings env settings s))))
   \<and> (WORKSPACE_SETTINGS s = [] \<and> (settings = None \<or> settings = Some []) \<longrightarrow>
        (\<exists>r. get_settings_by_document env (snd (update_workspace_settings env settings s)) None = Inr r
           \<and> map_of r ''workspaceFS'' = Some (Str (getcwd env))))"
  using resolve_total [of s d env] update_store_ok [of s env settings]
    first_record_default [of s settings env]
  by (auto simp: default_record_workspaceFS)

theorem resolution_total_witness:
  "(\<exists>r. get_settings_by_document env0 (state_with [config ''file:///a'' [] [] []]) None = Inr r)
   \<and> (\<exists>r. get_settings_by_document env0 s_empty (Some doc_x) = Inr r)
   \<and> (\<exists>r. get_settings_by_document env0 (snd (update_workspace_settings env0 None s_empty)) None = Inr r
           \<and> map_of r ''workspaceFS'' = Some (Str (getcwd env0)))"
proof -
  have a: "store_ok (WORKSPACE_SETTINGS (state_with [config ''file:///a'' [] [] []]))"
    by code_simp
  have b: "WORKSPACE_SETTINGS (state_with [config ''file:///a'' [] [] []]) \<noteq> []"
    by code_simp
  have c: "store_ok (WORKSPACE_SETTINGS s_empty)" by code_simp
  have d: "path doc_x = Some ''/proj/x.src''" by code_simp
  have e: "WORKSPACE_SETTINGS s_empty = []" by code_simp
  from resolution_total [of "state_with [config ''file:///a'' [] [] []]" None env0 None] a b
  have 1: "\<exists>r. get_settings_by_document env0 (state_with [config ''file:///a'' [] [] []]) None = Inr r"
    by blast
  from resolution_total [of s_empty "Some doc_x" env0 None] c d
  have 2: "\<exists>r. get_settings_by_document env0 s_empty (Some doc_x) = Inr r"
    by blast
  from resolution_total [of s_empty None env0 None] e
  have 3: "\<exists>r. get_settings_by_document env0 (snd (update_workspace_settings env0 None s_empty)) None = Inr r
           \<and> map_of r ''workspaceFS'' = Some (Str (getcwd env0))"
    by blast
  from 1 2 3 show ?thesis by blast
qed

text \<open>
  C3 as stated fails: with an empty store and no document, \<^verbatim>\<open>list(...)[0]\<close> raises.
\<close>

theorem resolution_empty_store_counterexample:
  "get_settings_by_document env0 s_empty None = Inl IndexError"
  by code_simp

text \<open>
  C5, as the code has it. The walk starts at the document's path itself, file name
  included, and goes outward through its ancestors, the root left out; the first of these
  that is a workspace root is the key. For the path \<^verbatim>\<open>/a/b/c/file.x\<close> the strings compared
  are \<^verbatim>\<open>/a/b/c/file.x\<close>, \<^verbatim>\<open>/a/b/c\<close>, \<^verbatim>\<open>/a/b\<close>, \<^verbatim>\<open>/a\<close>, and with the roots \<^verbatim>\<open>/a\<close> and
  \<^verbatim>\<open>/a/b\<close> in the store the document resolves to the record of \<^verbatim>\<open>/a/b\<close>.
\<close>

theorem document_key_walk:
  assumes ok: "store_ok (WORKSPACE_SETTINGS s)"
    and ne: "WORKSPACE_SETTINGS s \<noteq> []"
    and p: "path doc = Some p"
  shows "get_document_key s doc =
           Inr (List.find (\<lambda>c. c \<in> fst ` set (WORKSPACE_SETTINGS s)) (candidates (Path p)))
       \<and> candidates (Path ''/a/b/c/file.x'') = [''/a/b/c/file.x'', ''/a/b/c'', ''/a/b'', ''/a'']
       \<and> (p = ''/a/b/c/file.x'' \<and> fst ` set (WORKSPACE_SETTINGS s) = {''/a'', ''/a/b''} \<longrightarrow>
            (\<exists>r. map_of (WORKSPACE_SETTINGS s) ''/a/b'' = Some r \<and>
                 get_settings_by_document env s (Some doc) = Inr r))"
proof -
  let ?ws = "WORKSPACE_SETTINGS s"
  have key: "get_document_key s doc = Inr (List.find (\<lambda>c. c \<in> fst ` set ?ws) (candidates (Path p)))"
    using ok ne p by (simp add: get_document_key_def workspaces_store_ok walk_find)
  have cand: "candidates (Path ''/a/b/c/file.x'') = [''/a/b/c/file.x'', ''/a/b/c'', ''/a/b'', ''/a'']"
    by (simp add: Path_def splitroot_def candidates_def str_def)
  have ex: "\<exists>r. map_of ?ws ''/a/b'' = Some r \<and> get_settings_by_document env s (Some doc) = Inr r"
    if pp: "p = ''/a/b/c/file.x''" and roots: "fst ` set ?ws = {''/a'', ''/a/b''}"
  proof -
    from key pp roots cand have k: "get_document_key s doc = Inr (Some ''/a/b'')" by simp
    from roots have "''/a/b'' \<in> fst ` set ?ws" by simp
    then obtain r where r: "map_of ?ws ''/a/b'' = Some r"
      by (cases "map_of ?ws ''/a/b''") (auto simp: map_of_eq_None_iff)
    with k p show ?thesis by (simp add: get_settings_by_document_def getitem_def)
  qed
  from key cand ex show ?thesis by blast
qed

theorem document_key_walk_witness:
  "get_document_key (state_with [config ''file:///a'' [] [] [], config ''file:///a/b'' [] [] [''x'']])
      (doc_x\<lparr>path := Some ''/a/b/c/file.x''\<rparr>) = Inr (Some ''/a/b'')
   \<and> get_settings_by_document env0
        (state_with [config ''file:///a'' [] [] [], config ''file:///a/b'' [] [] [''x'']])
        (Some (doc_x\<lparr>path := Some ''/a/b/c/file.x''\<rparr>))
      = Inr (stored_record ''/a/b'' (config ''file:///a/b'' [] [] [''x'']))"
proof -
  let ?s = "state_with [config ''file:///a'' [] [] [], config ''file:///a/b'' [] [] [''x'']]"
  let ?d = "doc_x\<lparr>path := Some ''/a/b/c/file.x''\<rparr>"
  have ok: "store_ok (WORKSPACE_SETTINGS ?s)" by code_simp
  have ne: "WORKSPACE_SETTINGS ?s \<noteq> []" by code_simp
  have p: "path ?d = Some ''/a/b/c/file.x''" by simp
  have roots: "fst ` set (WORKSPACE_SETTINGS ?s) = {''/a'', ''/a/b''}" by code_simp
  have rec: "map_of (WORKSPACE_SETTINGS ?s) ''/a/b'' =
      Some (stored_record ''/a/b'' (config ''file:///a/b'' [] [] [''x'']))" by code_simp
  from document_key_walk [OF ok ne p, of env0] roots rec show ?thesis by auto
qed

text \<open>
  C5 as stated fails where a workspace root equals the document's path: the path with
  its file name is compared first and wins over the directory \<^verbatim>\<open>/a/b\<close>.
\<close>

theorem document_key_filename_counterexample:
  "get_document_key
     (state_with [config ''file:///a/b'' [] [] [], config ''file:///a/b/c/file.x'' [] [] []])
     (doc_x\<lparr>path := Some ''/a/b/c/file.x''\<rparr>) = Inr (Some ''/a/b/c/file.x'')"
  by code_simp

section \<open>Effects of the dispatcher\<close>

lemma emit_fields:
  "sys_path (emit e s) = sys_path s"
  "WORKSPACE_SETTINGS (emit e s) = WORKSPACE_SETTINGS s"
  "backend_calls (trace (emit e s)) = backend_calls (trace s) @ (if is_call e then [e] else [])"
  by (simp_all add: emit_def backend_calls_def)

lemma log_entries_append: "log_entries (xs @ ys) = log_entries xs @ log_entries ys"
  by (induction xs rule: log_entries.induct) simp_all

lemma log_entries_emit:
  "log_entries (trace (emit (ShowMessageLog m t) s)) = log_entries (trace s) @ [(m, t)]"
  "log_entries (trace (emit (ShowMessage m t) s)) = log_entries (trace s)"
  by (simp_all add: emit_def log_entries_append)

lemma log_to_output_fields:
  "sys_path (log_to_output m s) = sys_path s"
  "backend_calls (trace (log_to_output m s)) = backend_calls (trace s)"
  "log_entries (trace (log_to_output m s)) = log_entries (trace s) @ [(m, Log)]"
  by (simp_all add: log_to_output_def emit_fields log_entries_emit)

lemma log_error_fields:
  "sys_path (log_error env m s) = sys_path s"
  "backend_calls (trace (log_error env m s)) = backend_calls (trace s)"
  "log_entries (trace (log_error env m s)) = log_entries (trace s) @ [(m, Error)]"
  by (simp_all add: log_error_def Let_def emit_fields log_entries_emit)

lemma log_warning_fields:
  "sys_path (log_warning env m s) = sys_path s"
  "backend_calls (trace (log_warning env m s)) = backend_calls (trace s)"
  "log_entries (trace (log_warning env m s)) = log_entries (trace s) @ [(m, Warning)]"
  by (simp_all add: log_warning_def Let_def emit_fields log_entries_emit)

lemma log_stderr_fields:
  "sys_path (log_stderr r s) = sys_path s"
  "backend_calls (trace (log_stderr r s)) = backend_calls (trace s)"
  by (simp_all add: log_stderr_def log_to_output_fields)

lemma run_module_logged_calls:
  "backend_calls (trace (snd (run_module_logged env av us dir src s))) =
     backend_calls (trace s) @ [RunModule TOOL_MODULE av us dir src]"
proof (cases "run_module env TOOL_MODULE av us dir src (sys_path s)")
  case (Pair r sp)
  then show ?thesis
    by (cases r) (simp_all add: run_module_logged_def Let_def emit_fields log_error_fields)
qed

lemma substitute_attr_sys_path: "sys_path (snd (substitute_attr new body s)) = sys_path s"
  by (simp add: substitute_attr_def Let_def split: prod.splits)

lemma substitute_attr_calls:
  "backend_calls (trace (snd (substitute_attr new body s))) =
   backend_calls (trace (snd (body (s\<lparr>sys_path := new\<rparr>))))"
  by (simp add: substitute_attr_def Let_def split: prod.splits)

lemma rpc_branch_typed:
  "map_of st ''interpreter'' = Some (Lst il) \<Longrightarrow>
   rpc_branch env st p us src s = rpc_run env p us src (Lst il) il s"
  by (simp add: rpc_branch_def getitem_def list_of_def)

lemma rpc_branch_untyped:
  "\<forall>il. map_of st ''interpreter'' \<noteq> Some (Lst il) \<Longrightarrow> snd (rpc_branch env st p us src s) = s"
  by (auto simp: rpc_branch_def getitem_def list_of_def split: option.splits jv.splits)

lemma path_branch_sys_path: "sys_path (snd (path_branch env p us ps s)) = sys_path s"
  by (simp add: path_branch_def Let_def emit_fields log_to_output_fields log_stderr_fields
        split: sum.splits)

lemma rpc_run_sys_path: "sys_path (snd (rpc_run env p us src interp il s)) = sys_path s"
  by (simp add: rpc_run_def Let_def emit_fields log_to_output_fields log_stderr_fields
        log_error_fields split: sum.splits option.splits list.splits)

lemma rpc_branch_sys_path: "sys_path (snd (rpc_branch env st p us src s)) = sys_path s"
proof (cases "\<exists>il. map_of st ''interpreter'' = Some (Lst il)")
  case True
  then show ?thesis by (auto simp: rpc_branch_typed rpc_run_sys_path)
next
  case False
  then show ?thesis by (simp add: rpc_branch_untyped)
qed

lemma module_branch_sys_path: "sys_path (snd (module_branch env p us src s)) = sys_path s"
proof -
  let ?s2 = "log_to_output (''CWD Linter: '' @ fmt env (cwd p))
      (log_to_output (join '' '' ([sys_executable env, ''-m''] @ argv p)) s)"
  let ?r = "substitute_attr (sys_path ?s2) (run_module_logged env (argv p) us (cwd p) src) ?s2"
  have "sys_path (snd ?r) = sys_path s"
    by (simp add: substitute_attr_sys_path log_to_output_fields)
  then show ?thesis
    by (cases ?r) (auto simp: module_branch_def Let_def log_stderr_fields split: sum.splits)
qed

lemma invoke_sys_path: "sys_path (snd (invoke env st p us ps src s)) = sys_path s"
  by (simp add: invoke_def path_branch_sys_path rpc_branch_sys_path module_branch_sys_path)

lemma path_branch_calls:
  "backend_calls (trace (snd (path_branch env p us ps s))) =
     backend_calls (trace s) @ [RunPath (argv p) us (cwd p) ps]"
  by (simp add: path_branch_def Let_def emit_fields log_to_output_fields log_stderr_fields
        split: sum.splits)

lemma rpc_run_calls:
  "backend_calls (trace (snd (rpc_run env p us src interp il s))) =
     backend_calls (trace s) @
       [RunOverJsonRpc (code_workspace p) interp TOOL_MODULE (argv p) us (cwd p) src]"
  by (simp add: rpc_run_def Let_def emit_fields log_to_output_fields log_stderr_fields
        log_error_fields split: sum.splits option.splits list.splits)

lemma module_branch_calls:
  "backend_calls (trace (snd (module_branch env p us src s))) =
     backend_calls (trace s) @ [RunModule TOOL_MODULE (argv p) us (cwd p) src]"
proof -
  let ?s2 = "log_to_output (''CWD Linter: '' @ fmt env (cwd p))
      (log_to_output (join '' '' ([sys_executable env, ''-m''] @ argv p)) s)"
  let ?r = "substitute_attr (sys_path ?s2) (run_module_logged env (argv p) us (cwd p) src) ?s2"
  have "backend_calls (trace (snd ?r)) =
      backend_calls (trace s) @ [RunModule TOOL_MODULE (argv p) us (cwd p) src]"
    by (simp add: substitute_attr_calls run_module_logged_calls log_to_output_fields)
  then show ?thesis
    by (cases ?r) (auto simp: module_branch_def Let_def log_stderr_fields split: sum.splits)
qed

lemma is_python_cases:
  "ast_parse env code = None \<Longrightarrow> is_python env code s = (Inr True, s)"
  "ast_parse env code = Some (SyntaxError m) \<Longrightarrow>
     is_python env code s =
       (Inr False, log_error env (''Syntax error in code: '' @ format_exc env (SyntaxError m)) s)"
  by (simp_all add: is_python_def)

lemma is_python_sys_path: "sys_path (snd (is_python env code s)) = sys_path s"
  by (simp add: is_python_def log_error_fields split: option.splits error.splits)

lemma run_tool_sys_path: "sys_path (snd (run_tool env ea s)) = sys_path s"
proof -
  have "\<And>st p r s1. invoke env st p True None None s = (r, s1) \<Longrightarrow> sys_path s1 = sys_path s"
    using invoke_sys_path by (metis snd_conv)
  then show ?thesis
    by (auto simp: run_tool_def log_to_output_fields split: sum.splits prod.splits)
qed

lemma run_tool_on_document_sys_path:
  "sys_path (snd (run_tool_on_document env doc us ea s)) = sys_path s"
proof -
  obtain r s1 where ip: "is_python env (source doc) s = (r, s1)" by (cases "is_python env (source doc) s")
  with is_python_sys_path [of env "source doc" s] have s1: "sys_path s1 = sys_path s" by simp
  have inv: "\<And>st p ps src r s2. invoke env st p us ps src s1 = (r, s2) \<Longrightarrow> sys_path s2 = sys_path s"
    using invoke_sys_path s1 by (metis snd_conv)
  show ?thesis
    using ip s1
    by (auto simp: run_tool_on_document_def Let_def log_to_output_fields log_warning_fields
          dest: inv split: sum.splits prod.splits bool.splits)
qed

lemma module_branch_outcome:
  "fst (module_branch env p us src s) =
     fst (run_module env TOOL_MODULE (argv p) us (cwd p) src (sys_path s))"
  by (simp add: module_branch_def Let_def substitute_attr_def run_module_logged_def
        log_to_output_fields split: prod.splits sum.splits)

text \<open>
  C8. Whatever the tool does to \<^verbatim>\<open>sys.path\<close> and whether it returns or raises, after an
  in-process run \<^verbatim>\<open>sys.path\<close> is what it was before; the tool saw the path as it was,
  and its result or its exception is passed on. Both entry points leave \<^verbatim>\<open>sys.path\<close>
  unchanged on every exit. The restore is the work of \<open>substitute_attr\<close>, which is
  modelled from the spec.
\<close>

theorem sys_path_restored:
  "sys_path (snd (module_branch env p use_stdin src s)) = sys_path s
   \<and> fst (module_branch env p use_stdin src s) =
       fst (run_module env TOOL_MODULE (argv p) use_stdin (cwd p) src (sys_path s))
   \<and> sys_path (snd (run_tool_on_document env doc use_stdin extra_args s)) = sys_path s
   \<and> sys_path (snd (run_tool env extra s)) = sys_path s"
  by (simp add: module_branch_sys_path module_branch_outcome run_tool_on_document_sys_path
        run_tool_sys_path)

text \<open>
  A tool that puts a directory in front of \<^verbatim>\<open>sys.path\<close> and then raises: the exception
  reaches the caller, \<^verbatim>\<open>sys.path\<close> is as before.
\<close>

theorem sys_path_restored_witness:
  "fst (run_tool_on_document env_raise doc_x False None
          (state_with [config ''file:///proj'' [] [''/usr/bin/python3''] [''--check'']]))
     = Inl (OtherException ''boom'')
   \<and> snd (run_module env_raise TOOL_MODULE [] False (Str ''/proj'') None [''/srv/libs''])
     = [''/tool/injected'', ''/srv/libs'']
   \<and> sys_path (snd (run_tool_on_document env_raise doc_x False None
          (state_with [config ''file:///proj'' [] [''/usr/bin/python3''] [''--check'']])))
     = [''/srv/libs'']"
proof -
  let ?s = "state_with [config ''file:///proj'' [] [''/usr/bin/python3''] [''--check'']]"
  have a: "fst (run_tool_on_document env_raise doc_x False None ?s) = Inl (OtherException ''boom'')"
    by code_simp
  have b: "snd (run_module env_raise TOOL_MODULE [] False (Str ''/proj'') None [''/srv/libs''])
     = [''/tool/injected'', ''/srv/libs'']"
    by code_simp
  have c: "sys_path ?s = [''/srv/libs'']" by code_simp
  from sys_path_restored [where env = env_raise and s = ?s and doc = doc_x
      and use_stdin = False and extra_args = None] c
  have "sys_path (snd (run_tool_on_document env_raise doc_x False None ?s)) = [''/srv/libs'']"
    by simp
  with a b show ?thesis by simp
qed

section \<open>Selection and invocation\<close>

lemma first_item_hd: "ip \<noteq> [] \<Longrightarrow> first_item (Lst ip) = Inr (hd ip)"
  by (cases ip) simp_all

lemma select_on_document_typed:
  assumes "map_of st ''path'' = Some (Lst tp)"
    and "tp = [] \<longrightarrow> map_of st ''interpreter'' = Some (Lst ip)"
  shows "select_on_document env st =
     Inr (tp \<noteq> [], tp = [] \<and> ip \<noteq> [] \<and> \<not> is_current_interpreter env (hd ip),
          Lst (if tp \<noteq> [] then tp else [TOOL_MODULE]))"
  using assms by (auto simp: select_on_document_def getitem_def first_item_hd)

lemma select_global_typed:
  assumes "map_of st ''path'' = Some (Lst tp)"
    and "tp = [] \<longrightarrow> map_of st ''interpreter'' = Some (Lst ip)"
  shows "select_global env st =
     Inr (tp \<noteq> [], tp = [] \<and> ip \<noteq> [] \<and> \<not> is_current_interpreter env (hd ip),
          Lst (if tp \<noteq> [] then tp else [TOOL_MODULE]))"
  using assms by (auto simp: select_global_def getitem_def first_item_hd)

lemma prepare_on_document_typed:
  assumes "map_of st ''workspaceFS'' = Some w" and "map_of st ''cwd'' = Some dir"
    and "map_of st ''path'' = Some (Lst tp)"
    and "tp = [] \<longrightarrow> map_of st ''interpreter'' = Some (Lst ip)"
    and "map_of st ''args'' = Some (Lst ua)"
    and "us \<or> path doc = Some dp"
  shows "prepare_on_document env st doc us extra =
     Inr \<lparr>code_workspace = w, cwd = dir, use_path = (tp \<noteq> []),
          use_rpc = (tp = [] \<and> ip \<noteq> [] \<and> \<not> is_current_interpreter env (hd ip)),
          argv = (if tp \<noteq> [] then tp else [TOOL_MODULE]) @ TOOL_ARGS @ ua @ extra @
                 (if us then [] else [dp])\<rparr>"
  using assms(1,2,5,6)
  by (auto simp: prepare_on_document_def select_on_document_typed [OF assms(3,4)]
        getitem_def list_of_def)

lemma prepare_global_typed:
  assumes "map_of st ''workspaceFS'' = Some w"
    and "map_of st ''path'' = Some (Lst tp)"
    and "tp = [] \<longrightarrow> map_of st ''interpreter'' = Some (Lst ip)"
  shows "prepare_global env st extra =
     Inr \<lparr>code_workspace = w, cwd = w, use_path = (tp \<noteq> []),
          use_rpc = (tp = [] \<and> ip \<noteq> [] \<and> \<not> is_current_interpreter env (hd ip)),
          argv = (if tp \<noteq> [] then tp else [TOOL_MODULE]) @ extra\<rparr>"
  using assms(1)
  by (auto simp: prepare_global_def select_global_typed [OF assms(2,3)] getitem_def list_of_def)

lemma run_tool_on_document_run:
  assumes "\<not> startswith (uri doc) ''vscode-notebook-cell''"
    and "ast_parse env (source doc) = None"
    and "\<not> is_stdlib_file env (path doc)"
    and "get_settings_by_document env s (Some doc) = Inr st"
    and "prepare_on_document env st doc us (case ea of None \<Rightarrow> [] | Some xs \<Rightarrow> xs) = Inr p"
  shows "run_tool_on_document env doc us ea s =
     (case invoke env st p us (Some (replace_crlf (source doc))) (Some (source doc)) s of
        (Inl e, s2) \<Rightarrow> (Inl e, s2)
      | (Inr result, s2) \<Rightarrow>
          (Inr (Some result), log_to_output (uri doc @ '' :'' @ [CR, LF] @ stdout result) s2))"
  using assms by (simp add: run_tool_on_document_def is_python_cases Let_def)

lemma run_tool_run:
  assumes "get_settings_by_document env s None = Inr st"
    and "prepare_global env st extra = Inr p"
  shows "run_tool env extra s =
     (case invoke env st p True None None s of
        (Inl e, s1) \<Rightarrow> (Inl e, s1)
      | (Inr result, s1) \<Rightarrow>
          (Inr result, log_to_output ([CR, LF] @ stdout result @ [CR, LF]) s1))"
  using assms by (simp add: run_tool_def)

lemma run_tool_on_document_calls:
  assumes "\<not> startswith (uri doc) ''vscode-notebook-cell''"
    and "ast_parse env (source doc) = None"
    and "\<not> is_stdlib_file env (path doc)"
    and "get_settings_by_document env s (Some doc) = Inr st"
    and "prepare_on_document env st doc us (case ea of None \<Rightarrow> [] | Some xs \<Rightarrow> xs) = Inr p"
  shows "backend_calls (trace (snd (run_tool_on_document env doc us ea s))) =
     backend_calls (trace (snd (invoke env st p us (Some (replace_crlf (source doc)))
        (Some (source doc)) s)))"
  by (cases "invoke env st p us (Some (replace_crlf (source doc))) (Some (source doc)) s")
     (auto simp: run_tool_on_document_run [OF assms] log_to_output_fields split: sum.splits)

lemma run_tool_calls:
  assumes "get_settings_by_document env s None = Inr st"
    and "prepare_global env st extra = Inr p"
  shows "backend_calls (trace (snd (run_tool env extra s))) =
     backend_calls (trace (snd (invoke env st p True None None s)))"
  by (cases "invoke env st p True None None s")
     (auto simp: run_tool_run [OF assms] log_to_output_fields split: sum.splits)

lemma invoke_calls:
  assumes "use_rpc p \<longrightarrow> map_of st ''interpreter'' = Some (Lst il)"
  shows "backend_calls (trace (snd (invoke env st p us ps src s))) =
     backend_calls (trace s) @
       [if use_path p then RunPath (argv p) us (cwd p) ps
        else if use_rpc p
          then RunOverJsonRpc (code_workspace p) (Lst il) TOOL_MODULE (argv p) us (cwd p) src
        else RunModule TOOL_MODULE (argv p) us (cwd p) src]"
  using assms
  by (auto simp: invoke_def path_branch_calls module_branch_calls rpc_branch_typed rpc_run_calls)

text \<open>
  C6. For a record whose \<^verbatim>\<open>path\<close> is the list \<open>tp\<close> and, when \<open>tp\<close> is empty, whose
  \<^verbatim>\<open>interpreter\<close> is the list \<open>ip\<close>: both entry points select DirectPath when \<open>tp\<close> is
  not empty, whatever the interpreter; CrossRuntimeRpc when \<open>tp\<close> is empty, \<open>ip\<close> is not,
  and the first element of \<open>ip\<close> is not the running interpreter; InProcessModule otherwise.
  The invocation each entry point builds carries the flags of that strategy.
\<close>

theorem strategy_priority:
  assumes tool: "map_of st ''path'' = Some (Lst tp)"
    and interp: "tp = [] \<longrightarrow> map_of st ''interpreter'' = Some (Lst ip)"
  shows "selection (select_on_document env st) = Inr (expected_strategy env tp ip)
       \<and> selection (select_global env st) = Inr (expected_strategy env tp ip)
       \<and> (\<forall>p. prepare_on_document env st doc use_stdin extra = Inr p \<longrightarrow>
             strategy_of (use_path p) (use_rpc p) = expected_strategy env tp ip)
       \<and> (\<forall>p. prepare_global env st extra = Inr p \<longrightarrow>
             strategy_of (use_path p) (use_rpc p) = expected_strategy env tp ip)"
proof -
  note sel = select_on_document_typed [OF tool interp, of env]
    select_global_typed [OF tool interp, of env]
  have a: "selection (select_on_document env st) = Inr (expected_strategy env tp ip)"
    by (simp add: sel selection_def strategy_of_def expected_strategy_def)
  have b: "selection (select_global env st) = Inr (expected_strategy env tp ip)"
    by (simp add: sel selection_def strategy_of_def expected_strategy_def)
  have c: "strategy_of (use_path p) (use_rpc p) = expected_strategy env tp ip"
    if "prepare_on_document env st doc use_stdin extra = Inr p" for p
    using that
    by (auto simp: prepare_on_document_def sel strategy_of_def expected_strategy_def
          split: sum.splits if_splits option.splits)
  have d: "strategy_of (use_path p) (use_rpc p) = expected_strategy env tp ip"
    if "prepare_global env st extra = Inr p" for p
    using that
    by (auto simp: prepare_global_def sel strategy_of_def expected_strategy_def
          split: sum.splits if_splits)
  from a b c d show ?thesis by blast
qed

theorem strategy_priority_witness:
  "selection (select_on_document env0
      (stored_record ''/proj'' (config ''file:///proj'' [''/usr/bin/tool''] [''/other/python''] [])))
     = Inr DirectPath
   \<and> selection (select_global env0
      (stored_record ''/proj'' (config ''file:///proj'' [] [''/other/python''] [])))
     = Inr CrossRuntimeRpc
   \<and> selection (select_on_document env0
      (stored_record ''/proj'' (config ''file:///proj'' [] [''/usr/bin/python3''] [])))
     = Inr InProcessModule"
proof -
  let ?a = "stored_record ''/proj'' (config ''file:///proj'' [''/usr/bin/tool''] [''/other/python''] [])"
  let ?b = "stored_record ''/proj'' (config ''file:///proj'' [] [''/other/python''] [])"
  let ?c = "stored_record ''/proj'' (config ''file:///proj'' [] [''/usr/bin/python3''] [])"
  have a1: "map_of ?a ''path'' = Some (Lst [''/usr/bin/tool''])" by code_simp
  have b1: "map_of ?b ''path'' = Some (Lst [])" by code_simp
  have b2: "map_of ?b ''interpreter'' = Some (Lst [''/other/python''])" by code_simp
  have c1: "map_of ?c ''path'' = Some (Lst [])" by code_simp
  have c2: "map_of ?c ''interpreter'' = Some (Lst [''/usr/bin/python3''])" by code_simp
  have ea: "expected_strategy env0 [''/usr/bin/tool''] [] = DirectPath" by code_simp
  have eb: "expected_strategy env0 [] [''/other/python''] = CrossRuntimeRpc" by code_simp
  have ec: "expected_strategy env0 [] [''/usr/bin/python3''] = InProcessModule" by code_simp
  from strategy_priority [OF a1, of "[]" env0] ea
  have 1: "selection (select_on_document env0 ?a) = Inr DirectPath" by simp
  from strategy_priority [OF b1, of "[''/other/python'']" env0] b2 eb
  have 2: "selection (select_global env0 ?b) = Inr CrossRuntimeRpc" by simp
  from strategy_priority [OF c1, of "[''/usr/bin/python3'']" env0] c2 ec
  have 3: "selection (select_on_document env0 ?c) = Inr InProcessModule" by simp
  from 1 2 3 show ?thesis by simp
qed

text \<open>
  C9. A document at \<^verbatim>\<open>/proj/x.src\<close> that passes the filters and resolves to a record
  with an empty \<^verbatim>\<open>path\<close>, an \<^verbatim>\<open>interpreter\<close> that starts with the running interpreter,
  and \<^verbatim>\<open>args\<close> \<^verbatim>\<open>["--check"]\<close>: the strategy is InProcessModule, and without stdin and
  with no call-site arguments the single backend call is \<open>run_module\<close> with the argv
  \<^verbatim>\<open>[TOOL_MODULE, "--check", "/proj/x.src"]\<close>. In general the argv is the module name,
  \<^verbatim>\<open>--check\<close>, the call-site arguments, and the document path exactly when stdin is not
  used.
\<close>

theorem scenario_in_process:
  assumes f1: "\<not> startswith (uri doc) ''vscode-notebook-cell''"
    and f2: "ast_parse env (source doc) = None"
    and f3: "\<not> is_stdlib_file env (path doc)"
    and dp: "path doc = Some ''/proj/x.src''"
    and res: "get_settings_by_document env s (Some doc) = Inr st"
    and wfs: "map_of st ''workspaceFS'' = Some w"
    and dir: "map_of st ''cwd'' = Some dir"
    and tool: "map_of st ''path'' = Some (Lst [])"
    and interp: "map_of st ''interpreter'' = Some (Lst (i # rest))"
    and cur: "is_current_interpreter env i"
    and args: "map_of st ''args'' = Some (Lst [''--check''])"
  shows "selection (select_on_document env st) = Inr InProcessModule
       \<and> backend_calls (trace (snd (run_tool_on_document env doc False None s))) =
           backend_calls (trace s) @
             [RunModule TOOL_MODULE [TOOL_MODULE, ''--check'', ''/proj/x.src''] False dir
                (Some (source doc))]
       \<and> backend_calls (trace (snd (run_tool_on_document env doc use_stdin extra_args s))) =
           backend_calls (trace s) @
             [RunModule TOOL_MODULE
                ([TOOL_MODULE, ''--check''] @ (case extra_args of None \<Rightarrow> [] | Some xs \<Rightarrow> xs) @
                 (if use_stdin then [] else [''/proj/x.src'']))
                use_stdin dir (Some (source doc))]"
proof -
  have i: "[] = ([]::string list) \<longrightarrow> map_of st ''interpreter'' = Some (Lst (i # rest))"
    using interp by simp
  have sel: "selection (select_on_document env st) = Inr InProcessModule"
    using cur by (simp add: select_on_document_typed [OF tool i] selection_def strategy_of_def)
  have calls: "backend_calls (trace (snd (run_tool_on_document env doc us ea s))) =
           backend_calls (trace s) @
             [RunModule TOOL_MODULE
                ([TOOL_MODULE, ''--check''] @ (case ea of None \<Rightarrow> [] | Some xs \<Rightarrow> xs) @
                 (if us then [] else [''/proj/x.src'']))
                us dir (Some (source doc))]" for us ea
  proof -
    let ?extra = "case ea of None \<Rightarrow> [] | Some xs \<Rightarrow> xs"
    let ?P = "\<lparr>code_workspace = w, cwd = dir, use_path = False, use_rpc = False,
        argv = [TOOL_MODULE, ''--check''] @ ?extra @ (if us then [] else [''/proj/x.src''])\<rparr>"
    have d: "us \<or> path doc = Some ''/proj/x.src''" using dp by simp
    have prep: "prepare_on_document env st doc us ?extra = Inr ?P"
      using prepare_on_document_typed [OF wfs dir tool i args d, of env ?extra] cur
      by (simp add: TOOL_ARGS_def)
    have "backend_calls (trace (snd (invoke env st ?P us (Some (replace_crlf (source doc)))
              (Some (source doc)) s))) =
          backend_calls (trace s) @ [RunModule TOOL_MODULE (argv ?P) us dir (Some (source doc))]"
      using invoke_calls [of ?P st "[]" env us "Some (replace_crlf (source doc))"
          "Some (source doc)" s]
      by simp
    then show ?thesis
      by (simp add: run_tool_on_document_calls [OF f1 f2 f3 res prep])
  qed
  from sel calls [of False None] calls [of use_stdin extra_args] show ?thesis by simp
qed

theorem scenario_in_process_witness:
  "backend_calls (trace (snd (run_tool_on_document env0 doc_x False None
       (state_with [config ''file:///proj'' [] [''/usr/bin/python3''] [''--check'']])))) =
     [RunModule TOOL_MODULE [TOOL_MODULE, ''--check'', ''/proj/x.src''] False (Str ''/proj'')
        (Some ''x = 1'')]"
proof -
  let ?s = "state_with [config ''file:///proj'' [] [''/usr/bin/python3''] [''--check'']]"
  let ?st = "stored_record ''/proj'' (config ''file:///proj'' [] [''/usr/bin/python3''] [''--check''])"
  have f1: "\<not> startswith (uri doc_x) ''vscode-notebook-cell''" by code_simp
  have f2: "ast_parse env0 (source doc_x) = None" by code_simp
  have f3: "\<not> is_stdlib_file env0 (path doc_x)" by code_simp
  have dp: "path doc_x = Some ''/proj/x.src''" by code_simp
  have res: "get_settings_by_document env0 ?s (Some doc_x) = Inr ?st" by code_simp
  have wfs: "map_of ?st ''workspaceFS'' = Some (Str ''/proj'')" by code_simp
  have dir: "map_of ?st ''cwd'' = Some (Str ''/proj'')" by code_simp
  have tool: "map_of ?st ''path'' = Some (Lst [])" by code_simp
  have interp: "map_of ?st ''interpreter'' = Some (Lst (''/usr/bin/python3'' # []))" by code_simp
  have cur: "is_current_interpreter env0 ''/usr/bin/python3''" by code_simp
  have args: "map_of ?st ''args'' = Some (Lst [''--check''])" by code_simp
  have tr: "backend_calls (trace ?s) = []" by code_simp
  have src: "source doc_x = ''x = 1''" by code_simp
  from scenario_in_process [OF f1 f2 f3 dp res wfs dir tool interp cur args] tr src
  show ?thesis by simp
qed

section \<open>The two entry points\<close>

text \<open>
  C4, as the code has it. \<^verbatim>\<open>_run_tool\<close> resolves the settings without a document and
  makes one backend call, with stdin on, no source text, the workspace root as working
  directory, and an argv that is the tool path (or the module name) followed by the
  call-site arguments only: neither \<^verbatim>\<open>TOOL_ARGS\<close> nor the record's \<^verbatim>\<open>args\<close> are added,
  and no document path.
\<close>

theorem run_tool_invocation:
  assumes res: "get_settings_by_document env s None = Inr st"
    and wfs: "map_of st ''workspaceFS'' = Some w"
    and tool: "map_of st ''path'' = Some (Lst tp)"
    and interp: "map_of st ''interpreter'' = Some (Lst ip)"
  shows "prepare_global env st extra =
           Inr \<lparr>code_workspace = w, cwd = w, use_path = (tp \<noteq> []),
                use_rpc = (tp = [] \<and> ip \<noteq> [] \<and> \<not> is_current_interpreter env (hd ip)),
                argv = (if tp \<noteq> [] then tp else [TOOL_MODULE]) @ extra\<rparr>
       \<and> backend_calls (trace (snd (run_tool env extra s))) =
           backend_calls (trace s) @
             [case expected_strategy env tp ip of
                DirectPath \<Rightarrow> RunPath (tp @ extra) True w None
              | CrossRuntimeRpc \<Rightarrow>
                  RunOverJsonRpc w (Lst ip) TOOL_MODULE (TOOL_MODULE # extra) True w None
              | InProcessModule \<Rightarrow> RunModule TOOL_MODULE (TOOL_MODULE # extra) True w None]"
proof -
  let ?P = "\<lparr>code_workspace = w, cwd = w, use_path = (tp \<noteq> []),
                use_rpc = (tp = [] \<and> ip \<noteq> [] \<and> \<not> is_current_interpreter env (hd ip)),
                argv = (if tp \<noteq> [] then tp else [TOOL_MODULE]) @ extra\<rparr>"
  have i: "tp = [] \<longrightarrow> map_of st ''interpreter'' = Some (Lst ip)" using interp by simp
  have prep: "prepare_global env st extra = Inr ?P"
    by (rule prepare_global_typed [OF wfs tool i])
  have r: "use_rpc ?P \<longrightarrow> map_of st ''interpreter'' = Some (Lst ip)" using interp by simp
  have "backend_calls (trace (snd (run_tool env extra s))) =
      backend_calls (trace (snd (invoke env st ?P True None None s)))"
    by (rule run_tool_calls [OF res prep])
  also have "\<dots> = backend_calls (trace s) @
             [case expected_strategy env tp ip of
                DirectPath \<Rightarrow> RunPath (tp @ extra) True w None
              | CrossRuntimeRpc \<Rightarrow>
                  RunOverJsonRpc w (Lst ip) TOOL_MODULE (TOOL_MODULE # extra) True w None
              | InProcessModule \<Rightarrow> RunModule TOOL_MODULE (TOOL_MODULE # extra) True w None]"
    by (simp add: invoke_calls [OF r] expected_strategy_def)
  finally show ?thesis using prep by simp
qed

theorem run_tool_invocation_witness:
  "backend_calls (trace (snd (run_tool env0 [''--version'']
       (state_with [config ''file:///proj'' [''/usr/bin/tool''] [''/other/python''] [''--check'']])))) =
     [RunPath [''/usr/bin/tool'', ''--version''] True (Str ''/proj'') None]"
proof -
  let ?s = "state_with [config ''file:///proj'' [''/usr/bin/tool''] [''/other/python''] [''--check'']]"
  let ?st = "stored_record ''/proj''
      (config ''file:///proj'' [''/usr/bin/tool''] [''/other/python''] [''--check''])"
  have res: "get_settings_by_document env0 ?s None = Inr ?st" by code_simp
  have wfs: "map_of ?st ''workspaceFS'' = Some (Str ''/proj'')" by code_simp
  have tool: "map_of ?st ''path'' = Some (Lst [''/usr/bin/tool''])" by code_simp
  have interp: "map_of ?st ''interpreter'' = Some (Lst [''/other/python''])" by code_simp
  have tr: "backend_calls (trace ?s) = []" by code_simp
  have e: "expected_strategy env0 [''/usr/bin/tool''] [''/other/python''] = DirectPath"
    by code_simp
  from run_tool_invocation [OF res wfs tool interp, of "[''--version'']"] tr e
  show ?thesis by simp
qed

text \<open>
  C4 as stated fails: the record has the user argument \<^verbatim>\<open>--check\<close>, and the argv of
  the call is the module name and \<^verbatim>\<open>--version\<close> only.
\<close>

theorem run_tool_drops_args_counterexample:
  "backend_calls (trace (snd (run_tool env0 [''--version'']
       (state_with [config ''file:///proj'' [] [''/usr/bin/python3''] [''--check'']])))) =
     [RunModule ''unittest_generator'' [''unittest_generator'', ''--version''] True
        (Str ''/proj'') None]"
  by code_simp

text \<open>
  C1, as the code has it. When the RPC backend answers with output \<open>out\<close>, \<open>err\<close> and a
  non-empty exception text, the result handed to the caller (by \<open>invoke\<close>, and so by both
  entry points) is the plain \<open>RunResult out err\<close>: stdout and stderr are kept as they
  came, and the exception is written to the log as an error and is not part of the
  result.
\<close>

theorem rpc_exception_result:
  assumes rpc: "\<not> use_path p" "use_rpc p"
    and interp: "map_of st ''interpreter'' = Some (Lst il)"
    and resp: "run_over_json_rpc env (code_workspace p) (Lst il) TOOL_MODULE (argv p) use_stdin
                 (cwd p) src = Inr (RpcRunResult out err (Some (c # cs)))"
  shows "fst (invoke env st p use_stdin path_src src s) = Inr (RunResult out err)
       \<and> log_entries (trace (snd (invoke env st p use_stdin path_src src s))) =
           log_entries (trace s) @
             [(join '' '' (il @ [''-m''] @ argv p), Log),
              (''CWD Linter: '' @ fmt env (cwd p), Log),
              (c # cs, Error)]
       \<and> (\<not> startswith (uri doc) ''vscode-notebook-cell'' \<and> ast_parse env (source doc) = None
            \<and> \<not> is_stdlib_file env (path doc)
            \<and> get_settings_by_document env s (Some doc) = Inr st
            \<and> prepare_on_document env st doc use_stdin
                  (case extra_args of None \<Rightarrow> [] | Some xs \<Rightarrow> xs) = Inr p
            \<and> src = Some (source doc)
          \<longrightarrow> fst (run_tool_on_document env doc use_stdin extra_args s)
                = Inr (Some (RunResult out err)))
       \<and> (get_settings_by_document env s None = Inr st \<and> prepare_global env st extra = Inr p
            \<and> use_stdin \<and> src = None
          \<longrightarrow> fst (run_tool env extra s) = Inr (RunResult out err))"
proof -
  have inv: "invoke env st p use_stdin ps src s =
      (Inr (RunResult out err),
       log_error env (c # cs)
         (emit (RunOverJsonRpc (code_workspace p) (Lst il) TOOL_MODULE (argv p) use_stdin (cwd p) src)
            (log_to_output (''CWD Linter: '' @ fmt env (cwd p))
               (log_to_output (join '' '' (il @ [''-m''] @ argv p)) s))))" for ps
    using rpc resp by (simp add: invoke_def rpc_branch_typed [OF interp] rpc_run_def Let_def)
  have a: "fst (invoke env st p use_stdin path_src src s) = Inr (RunResult out err)"
    by (simp add: inv)
  have b: "log_entries (trace (snd (invoke env st p use_stdin path_src src s))) =
           log_entries (trace s) @
             [(join '' '' (il @ [''-m''] @ argv p), Log),
              (''CWD Linter: '' @ fmt env (cwd p), Log),
              (c # cs, Error)]"
    by (simp add: inv log_error_fields log_to_output_fields emit_def log_entries_append)
  have c: "fst (run_tool_on_document env doc use_stdin extra_args s) = Inr (Some (RunResult out err))"
    if "\<not> startswith (uri doc) ''vscode-notebook-cell''" "ast_parse env (source doc) = None"
      "\<not> is_stdlib_file env (path doc)" "get_settings_by_document env s (Some doc) = Inr st"
      "prepare_on_document env st doc use_stdin (case extra_args of None \<Rightarrow> [] | Some xs \<Rightarrow> xs) = Inr p"
      "src = Some (source doc)"
    using inv [of "Some (replace_crlf (source doc))"] that(6)
    by (simp add: run_tool_on_document_run [OF that(1-5)])
  have d: "fst (run_tool env extra s) = Inr (RunResult out err)"
    if "get_settings_by_document env s None = Inr st" "prepare_global env st extra = Inr p"
      "use_stdin" "src = None"
    using inv [of None] that(3,4) by (simp add: run_tool_run [OF that(1,2)])
  from a b c d show ?thesis by blast
qed

theorem rpc_exception_result_witness:
  "fst (run_tool env0 [''--version'']
          (state_with [config ''file:///proj'' [] [''/other/python''] [''--check'']]))
     = Inr (RunResult ''partial output'' ''remote warning'')"
proof -
  let ?s = "state_with [config ''file:///proj'' [] [''/other/python''] [''--check'']]"
  let ?st = "stored_record ''/proj'' (config ''file:///proj'' [] [''/other/python''] [''--check''])"
  let ?p = "\<lparr>code_workspace = Str ''/proj'', cwd = Str ''/proj'', use_path = False, use_rpc = True,
             argv = [TOOL_MODULE, ''--version'']\<rparr>"
  have r1: "\<not> use_path ?p" by simp
  have r2: "use_rpc ?p" by simp
  have interp: "map_of ?st ''interpreter'' = Some (Lst [''/other/python''])" by code_simp
  have resp: "run_over_json_rpc env0 (code_workspace ?p) (Lst [''/other/python'']) TOOL_MODULE
      (argv ?p) True (cwd ?p) None
      = Inr (RpcRunResult ''partial output'' ''remote warning'' (Some (CHR ''T'' # ''raceback: boom'')))"
    by code_simp
  have res: "get_settings_by_document env0 ?s None = Inr ?st" by code_simp
  have prep: "prepare_global env0 ?st [''--version''] = Inr ?p" by code_simp
  from rpc_exception_result [OF r1 r2 interp resp, where s = ?s and extra = "[''--version'']"]
    res prep
  show ?thesis by simp
qed

text \<open>
  C1 as stated fails: the result of a run whose RPC response carries an exception has
  the response's stdout and stderr, not empty strings, and no failure.
\<close>

theorem rpc_exception_counterexample:
  "fst (run_tool_on_document env0 doc_x False None
          (state_with [config ''file:///proj'' [] [''/other/python''] [''--check'']]))
     = Inr (Some (RunResult ''partial output'' ''remote warning''))"
  by code_simp



end
